theory Spec2Isabelle
  imports Main "HOL-Library.Multiset" "HOL-Library.Sublist"
begin

section \<open>Data model\<close>

text \<open>
  A Python \<open>str\<close> is a sequence of Unicode code points. Corpus text and tokens are
  modelled as lists of code points (natural numbers), so that \<open>len\<close> counts what
  Python counts and the typographic quotes of \<open>normalize_text\<close> (above U+00FF) are
  single characters. File names, paths and log lines are plain ASCII and are modelled
  as HOL strings.
\<close>

type_synonym ustring = "nat list"

text \<open>An ASCII literal as a code-point string.\<close>

definition ascii :: "string \<Rightarrow> ustring" where
  "ascii s = map of_char s"

text \<open>
  The frequency table is the two-column DataFrame \<open>word, total\<close>: a list of rows in
  index order. Counts are Python integers.
\<close>

type_synonym row = "ustring \<times> int"
type_synonym table = "row list"

text \<open>
  What the program takes from its libraries and its surroundings is collected in one
  record: the project root that \<open>Path(__file__).resolve().parent.parent\<close> yields, the
  formatted clock reading, pandas' table rendering and sort, the Unicode tables behind
  \<open>unicodedata.normalize("NFKC", _)\<close> and \<open>str.lower\<close>, and the NLTK stopword list.
  \<open>nltk_english\<close> is what \<open>stopwords.words("english")\<close> returns once
  \<open>ensure_nltk_stopwords\<close> has run: \<open>None\<close> when the corpus is missing and the download
  did not provide it, in which case the call raises \<open>LookupError\<close>.
\<close>

record env =
  PROJECT_ROOT :: string
  now :: string
  to_string :: "table \<Rightarrow> string"
  nfkc :: "ustring \<Rightarrow> ustring"
  str_lower :: "ustring \<Rightarrow> ustring"
  sort_values :: "table \<Rightarrow> table"
  nltk_english :: "ustring list option"

text \<open>The file system as far as the program reads it: text files (decoded) and directories.\<close>

record fs =
  files :: "string \<rightharpoonup> ustring"
  dirs :: "string set"

text \<open>
  The exceptions that end a run. \<open>WorkbookError\<close> is the exception that leaves the
  \<open>with pd.ExcelWriter(...)\<close> block when a sheet cannot be written: the \<open>ValueError\<close> of
  a sheet past Excel's row limit or the \<open>IllegalCharacterError\<close> of a control character
  in a cell.
\<close>

datatype error = FileNotFoundError string | IsADirectoryError | LookupError | WorkbookError

text \<open>
  What the program writes: each artifact is kept as the data handed to the library writer
  (the table for a CSV file, the named sheets for the workbook, the title and plotted rows
  for the chart, the text for a text file). \<open>Incomplete\<close> is what a writer that raised
  leaves at its path: a file that is not the artifact. A run is the list of its writes, in
  order. Failures of the operating system while writing (permissions, full disk) are not
  modelled, and the words of a table are taken to be text that UTF-8 can encode (no lone
  surrogate), as the text read from the corpus is.
\<close>

datatype artifact =
    CsvFile table
  | Workbook "(string \<times> table) list"
  | TextFile string
  | BarChart string table
  | Incomplete

datatype effect = Mkdir string | WriteFile string artifact

section \<open>Paths\<close>

definition path_join :: "string \<Rightarrow> string \<Rightarrow> string" where
  "path_join dir name = dir @ ''/'' @ name"

definition DATA_DIR :: "env \<Rightarrow> string" where
  "DATA_DIR e = path_join (PROJECT_ROOT e) ''data''"

definition OUTPUT_DIR :: "env \<Rightarrow> string" where
  "OUTPUT_DIR e = path_join (PROJECT_ROOT e) ''output''"

definition DEFAULT_INPUT_FILE :: string where
  "DEFAULT_INPUT_FILE = ''customer_support_text_corpus.txt''"

section \<open>Text rendering of integers and lines\<close>

definition digit_char :: "nat \<Rightarrow> char" where
  "digit_char d = ''0123456789'' ! d"

function str_nat :: "nat \<Rightarrow> string" where
  "str_nat n = (if n < 10 then [digit_char n] else str_nat (n div 10) @ [digit_char (n mod 10)])"
  by pat_completeness auto
termination
  by (relation "measure id") auto

text \<open>\<open>str(i)\<close>, as an f-string formats an integer.\<close>

definition str_int :: "int \<Rightarrow> string" where
  "str_int i = (if i < 0 then CHR ''-'' # str_nat (nat (- i)) else str_nat (nat i))"

text \<open>\<open>"\n".join(lines)\<close>\<close>

fun join_lines :: "string list \<Rightarrow> string" where
  "join_lines [] = []"
| "join_lines [l] = l"
| "join_lines (l # ls) = l @ [CHR 0x0A] @ join_lines ls"

section \<open>Normalizer: \<open>normalize_text\<close>\<close>

text \<open>\<open>str.replace\<close> with a one-character pattern and a one-character replacement.\<close>

definition replace_char :: "nat \<Rightarrow> nat \<Rightarrow> ustring \<Rightarrow> ustring" where
  "replace_char old new text = map (\<lambda>c. if c = old then new else c) text"

text \<open>
  \<^verbatim>\<open>text = unicodedata.normalize("NFKC", text)\<close>
  \<^verbatim>\<open>text = text.replace(U+2019, "'").replace(U+201C, '"').replace(U+201D, '"')\<close>
  The three characters in the source are the right single quotation mark and the left
  and right double quotation marks.
\<close>

definition normalize_text :: "(ustring \<Rightarrow> ustring) \<Rightarrow> ustring \<Rightarrow> ustring" where
  "normalize_text nf text =
     replace_char 0x201D 0x22 (replace_char 0x201C 0x22 (replace_char 0x2019 0x27 (nf text)))"

section \<open>Tokenizer: \<open>tokenize\<close>\<close>

text \<open>
  The regular expressions the program uses, and the backtracking search of Python's
  \<open>re\<close>: \<open>ends r s\<close> lists the remainders of \<open>s\<close> after every way \<open>r\<close> can match a
  prefix of \<open>s\<close>, in the order the engine tries them (a greedy repetition tries the
  longest first, a greedy option tries the group before skipping it). The match the
  engine reports at a position is the first of them.
\<close>

datatype 'a regex =
    Class "'a \<Rightarrow> bool"
  | Lit 'a
  | Seq "'a regex" "'a regex"
  | Plus "'a regex"
  | Opt "'a regex"

fun ends :: "'a regex \<Rightarrow> 'a list \<Rightarrow> 'a list list" where
  "ends (Class p) s = (case s of [] \<Rightarrow> [] | c # r \<Rightarrow> if p c then [r] else [])"
| "ends (Lit a) s = (case s of [] \<Rightarrow> [] | c # r \<Rightarrow> if c = a then [r] else [])"
| "ends (Seq a b) s = concat (map (ends b) (ends a s))"
| "ends (Opt a) s = ends a s @ [s]"
| "ends (Plus a) s =
     concat (map (\<lambda>r. (if length r < length s then ends (Plus a) r else []) @ [r]) (ends a s))"

text \<open>
  \<open>re.findall\<close>: scan from the left; where the pattern matches, record the matched text
  and resume at its end; where it does not, move on one character. (An empty match is
  recorded and the scan moves on one character; the token pattern never matches the
  empty string.)
\<close>

function findall :: "'a regex \<Rightarrow> 'a list \<Rightarrow> 'a list list" where
  "findall re [] = (case ends re [] of [] \<Rightarrow> [] | r # _ \<Rightarrow> [[]])"
| "findall re (c # cs) =
     (case ends re (c # cs) of
        [] \<Rightarrow> findall re cs
      | r # _ \<Rightarrow>
          if length r < length (c # cs)
          then take (length (c # cs) - length r) (c # cs) # findall re r
          else [] # findall re cs)"
  by pat_completeness auto
termination
  by (relation "measure (\<lambda>(re, s). length s)") auto

text \<open>The character class \<open>[a-z0-9]\<close>.\<close>

definition az09 :: "nat \<Rightarrow> bool" where
  "az09 c \<longleftrightarrow> (97 \<le> c \<and> c \<le> 122) \<or> (48 \<le> c \<and> c \<le> 57)"

text \<open>The pattern \<^verbatim>\<open>[a-z0-9]+(?:'[a-z0-9]+)?\<close>; 39 is the apostrophe.\<close>

definition token_re :: "nat regex" where
  "token_re = Seq (Plus (Class az09)) (Opt (Seq (Lit 39) (Plus (Class az09))))"

text \<open>\<^verbatim>\<open>return re.findall(r"[a-z0-9]+(?:'[a-z0-9]+)?", text.lower())\<close>\<close>

definition tokenize :: "(ustring \<Rightarrow> ustring) \<Rightarrow> ustring \<Rightarrow> ustring list" where
  "tokenize lwr text = findall token_re (lwr text)"

text \<open>\<open>str.lower\<close> on ASCII text, for running the tokenizer on ASCII examples.\<close>

definition ascii_lower :: "ustring \<Rightarrow> ustring" where
  "ascii_lower text = map (\<lambda>c. if 65 \<le> c \<and> c \<le> 90 then c + 32 else c) text"

section \<open>Stopword set: \<open>build_stopword_set\<close>\<close>

definition extra_stopwords :: "ustring list" where
  "extra_stopwords = map ascii
     [''would'', ''like'', ''also'', ''still'', ''really'', ''just'',
      ''get'', ''got'', ''going'', ''go'', ''one'', ''can'', ''could'',
      ''im'', ''ive'', ''youre'', ''theyre'', ''weve'',
      ''dont'', ''doesnt'', ''didnt'',
      ''want'', ''need'', ''know'', ''back'', ''time'',
      ''thanks'', ''thank'', ''please'']"

definition build_stopword_set :: "ustring list option \<Rightarrow> error + ustring set" where
  "build_stopword_set english =
     (case english of
        None \<Rightarrow> Inl LookupError
      | Some ws \<Rightarrow> Inr (set ws \<union> set extra_stopwords))"

section \<open>Stopword Filter: \<open>filter_tokens\<close>\<close>

text \<open>
  \<^verbatim>\<open>return [t for t in tokens if len(t) >= min_len and t not in sw]\<close>
\<close>

definition filter_tokens :: "ustring list \<Rightarrow> ustring set \<Rightarrow> int \<Rightarrow> ustring list" where
  "filter_tokens tokens sw min_len =
     [t \<leftarrow> tokens. min_len \<le> int (length t) \<and> t \<notin> sw]"

section \<open>Frequency Aggregator: \<open>count_tokens\<close>\<close>

text \<open>
  \<open>Counter(tokens)\<close> is a dictionary that keeps insertion order: counting an element
  that is already a key updates its value in place, a new element is appended with
  count 1. \<open>counts.items()\<close> lists the pairs in that order.
\<close>

fun counter_add :: "table \<Rightarrow> ustring \<Rightarrow> table" where
  "counter_add [] t = [(t, 1)]"
| "counter_add ((k, c) # m) t =
     (if k = t then (k, c + 1) # m else (k, c) # counter_add m t)"

definition Counter :: "ustring list \<Rightarrow> table" where
  "Counter tokens = foldl counter_add [] tokens"

text \<open>
  \<open>df.sort_values("total", ascending=False)\<close> is called with the library's default
  \<open>kind="quicksort"\<close>, which the library documents as not stable. The sort routine is
  therefore a parameter \<open>srt\<close> of the model; what the call guarantees is that the
  result is a rearrangement of the rows with the totals in descending order.
  \<open>reset_index(drop=True)\<close> renumbers the rows, which a list does by itself.
\<close>

definition sorts_descending :: "(table \<Rightarrow> table) \<Rightarrow> bool" where
  "sorts_descending srt \<longleftrightarrow>
     (\<forall>df. mset (srt df) = mset df \<and> sorted_wrt (\<lambda>r s. snd s \<le> snd r) (srt df))"

definition count_tokens :: "(table \<Rightarrow> table) \<Rightarrow> ustring list \<Rightarrow> table" where
  "count_tokens srt tokens = srt (Counter tokens)"

text \<open>Two routines that meet the contract: a stable one, and ascending-then-reversed.\<close>

definition sort_stable_desc :: "table \<Rightarrow> table" where
  "sort_stable_desc df = sort_key (\<lambda>r. - snd r) df"

definition sort_asc_reversed :: "table \<Rightarrow> table" where
  "sort_asc_reversed df = rev (sort_key snd df)"

section \<open>Report Emitter: \<open>write_run_log\<close> and \<open>save_outputs\<close>\<close>

text \<open>The boolean-mask selection \<^verbatim>\<open>freq_df[freq_df["total"] >= threshold]\<close>.\<close>

definition rows_ge :: "table \<Rightarrow> int \<Rightarrow> table" where
  "rows_ge freq_df threshold = [r \<leftarrow> freq_df. threshold \<le> snd r]"

text \<open>The output paths, as \<open>save_outputs\<close> and \<open>write_run_log\<close> build them.\<close>

definition csv_all_path :: "string \<Rightarrow> string" where
  "csv_all_path output_dir = path_join output_dir ''token_frequencies_all.csv''"

definition csv_ge_path :: "string \<Rightarrow> int \<Rightarrow> string" where
  "csv_ge_path output_dir threshold =
     path_join output_dir (''token_frequencies_ge_'' @ str_int threshold @ ''.csv'')"

definition xlsx_path :: "string \<Rightarrow> string" where
  "xlsx_path output_dir = path_join output_dir ''text_mining_results.xlsx''"

definition txt_path :: "string \<Rightarrow> string" where
  "txt_path output_dir = path_join output_dir ''summary_top20.txt''"

definition png_path :: "string \<Rightarrow> int \<Rightarrow> string" where
  "png_path output_dir threshold =
     path_join output_dir (''top_tokens_ge_'' @ str_int threshold @ ''.png'')"

definition note_path :: "string \<Rightarrow> string" where
  "note_path output_dir = path_join output_dir ''chart_note.txt''"

definition log_path :: "string \<Rightarrow> string" where
  "log_path output_dir = path_join output_dir ''run_log.txt''"

text \<open>The six paths \<open>write_run_log\<close> appends under "Generated outputs:".\<close>

definition listed_outputs :: "string \<Rightarrow> int \<Rightarrow> string list" where
  "listed_outputs output_dir threshold =
     [csv_all_path output_dir,
      csv_ge_path output_dir threshold,
      xlsx_path output_dir,
      txt_path output_dir,
      png_path output_dir threshold,
      log_path output_dir]"

definition run_log_lines :: "env \<Rightarrow> string \<Rightarrow> table \<Rightarrow> int \<Rightarrow> string \<Rightarrow> string list" where
  "run_log_lines e input_path freq_df threshold output_dir =
     (let top20 = take 20 freq_df;
          df_ge = rows_ge freq_df threshold
      in [''Customer Support Text Mining - Run Log'',
          replicate 40 CHR ''='',
          ''Run timestamp: '' @ now e,
          ''Project root: '' @ PROJECT_ROOT e,
          ''Input file:    '' @ input_path,
          [],
          ''Unique tokens (after filtering): '' @ str_int (int (length freq_df)),
          ''Tokens with total >= '' @ str_int threshold @ '': '' @ str_int (int (length df_ge)),
          [],
          ''Top 20 tokens:'',
          to_string e top20,
          [],
          ''Generated outputs:'']
         @ map (\<lambda>p. ''- '' @ p) (listed_outputs output_dir threshold))"

text \<open>\<open>write_run_log\<close> writes the lines, newline-terminated, and returns the log's path.\<close>

definition write_run_log ::
  "env \<Rightarrow> string \<Rightarrow> table \<Rightarrow> int \<Rightarrow> string \<Rightarrow> string \<times> effect list" where
  "write_run_log e input_path freq_df threshold output_dir =
     (log_path output_dir,
      [WriteFile (log_path output_dir)
         (TextFile (join_lines (run_log_lines e input_path freq_df threshold output_dir)
                    @ [CHR 0x0A]))])"

definition summary_lines :: "env \<Rightarrow> table \<Rightarrow> int \<Rightarrow> string list" where
  "summary_lines e freq_df threshold =
     [''Top 20 tokens:'',
      to_string e (take 20 freq_df),
      [],
      ''Tokens with total >= '' @ str_int threshold @ '': ''
        @ str_int (int (length (rows_ge freq_df threshold))),
      []]"

text \<open>
  \<open>df.to_excel(writer, index=False, sheet_name=...)\<close> writes a header row and one row per
  row of the table. A sheet has 1,048,576 rows and the workbook library refuses a cell
  past the last one, so a table of 1,048,576 rows or more does not fit under its header
  and the call raises; it also raises for a cell that holds one of the control characters
  the workbook library refuses (code points 0 to 8, 11, 12 and 14 to 31).
\<close>

definition EXCEL_MAX_ROWS :: nat where
  "EXCEL_MAX_ROWS = 1048576"

definition illegal_character :: "nat \<Rightarrow> bool" where
  "illegal_character c \<longleftrightarrow> c \<le> 8 \<or> c = 11 \<or> c = 12 \<or> (14 \<le> c \<and> c \<le> 31)"

definition sheet_ok :: "table \<Rightarrow> bool" where
  "sheet_ok df \<longleftrightarrow>
     length df < EXCEL_MAX_ROWS \<and> list_all (\<lambda>r. \<not> list_ex illegal_character (fst r)) df"

text \<open>
  \<open>save_outputs\<close> writes the two CSV files, then the workbook with its two sheets. If a
  sheet cannot be written the exception leaves the function there: the summary, the chart
  or note and the run log are not written. Otherwise the run goes on to the summary, the
  chart (or the note, when no row reaches the threshold) and the run log. The result is
  the exception, if any, and the writes performed.
\<close>

definition save_outputs :: "env \<Rightarrow> table \<Rightarrow> int \<Rightarrow> (error + unit) \<times> effect list" where
  "save_outputs e freq_df threshold =
     (let df_all = freq_df;
          df_ge = rows_ge freq_df threshold;
          plot_df = (if length df_ge > 50 then take 50 df_ge else df_ge);
          input_path = path_join (DATA_DIR e) DEFAULT_INPUT_FILE;
          csvs = [Mkdir (OUTPUT_DIR e),
                  WriteFile (csv_all_path (OUTPUT_DIR e)) (CsvFile df_all),
                  WriteFile (csv_ge_path (OUTPUT_DIR e) threshold) (CsvFile df_ge)]
      in if \<not> (sheet_ok df_all \<and> sheet_ok df_ge)
         then (Inl WorkbookError, csvs @ [WriteFile (xlsx_path (OUTPUT_DIR e)) Incomplete])
         else (Inr (),
           csvs
           @ [WriteFile (xlsx_path (OUTPUT_DIR e))
                (Workbook [(''all_tokens'', df_all), (''tokens_ge_'' @ str_int threshold, df_ge)]),
              WriteFile (txt_path (OUTPUT_DIR e))
                (TextFile (join_lines (summary_lines e freq_df threshold)))]
           @ (if length plot_df > 0
              then [WriteFile (png_path (OUTPUT_DIR e) threshold)
                      (BarChart (''Top tokens (frequency >= '' @ str_int threshold @ '')'')
                         plot_df)]
              else [WriteFile (note_path (OUTPUT_DIR e))
                      (TextFile (''No tokens met the threshold of '' @ str_int threshold
                                 @ '', so no chart was generated.'' @ [CHR 0x0A]))])
           @ snd (write_run_log e input_path freq_df threshold (OUTPUT_DIR e))))"

section \<open>Entry point: \<open>main\<close>\<close>

definition path_exists :: "fs \<Rightarrow> string \<Rightarrow> bool" where
  "path_exists f p \<longleftrightarrow> p \<in> dom (files f) \<or> p \<in> dirs f"

text \<open>\<open>read_text(encoding="utf-8", errors="replace")\<close>: the decoded contents of a file.\<close>

definition read_text :: "fs \<Rightarrow> string \<Rightarrow> error + ustring" where
  "read_text f p = (case files f p of Some t \<Rightarrow> Inr t | None \<Rightarrow> Inl IsADirectoryError)"

definition missing_input_message :: "env \<Rightarrow> string \<Rightarrow> string" where
  "missing_input_message e input_path =
     ''Input file not found: '' @ input_path @ [CHR 0x0A]
     @ ''Make sure your corpus is located at: '' @ path_join (DATA_DIR e) DEFAULT_INPUT_FILE
     @ [CHR 0x0A]
     @ ''Current project root is: '' @ PROJECT_ROOT e"

text \<open>
  The result of \<open>main\<close> is the exception it raises, if any, and the writes it performed
  up to then.
\<close>

definition main :: "env \<Rightarrow> fs \<Rightarrow> (error + unit) \<times> effect list" where
  "main e f =
     (let bootstrap = [Mkdir (OUTPUT_DIR e)];
          input_path = path_join (DATA_DIR e) DEFAULT_INPUT_FILE
      in if \<not> path_exists f input_path
         then (Inl (FileNotFoundError (missing_input_message e input_path)), bootstrap)
         else case read_text f input_path of
                Inl err \<Rightarrow> (Inl err, bootstrap)
              | Inr raw_text \<Rightarrow>
                  (let raw_text = normalize_text (nfkc e) raw_text
                   in case build_stopword_set (nltk_english e) of
                        Inl err \<Rightarrow> (Inl err, bootstrap)
                      | Inr sw \<Rightarrow>
                          (let tokens = tokenize (str_lower e) raw_text;
                               tokens = filter_tokens tokens sw 4;
                               freq_df = count_tokens (sort_values e) tokens
                           in case save_outputs e freq_df 250 of
                                (result, writes) \<Rightarrow> (result, bootstrap @ writes))))"

section \<open>Observations on a run\<close>

text \<open>The paths written in a run, in order, and the artifact a path holds after the run.\<close>

fun written_paths :: "effect list \<Rightarrow> string list" where
  "written_paths [] = []"
| "written_paths (Mkdir d # es) = written_paths es"
| "written_paths (WriteFile p a # es) = p # written_paths es"

fun written :: "effect list \<Rightarrow> string \<Rightarrow> artifact option" where
  "written [] p = None"
| "written (Mkdir d # es) p = written es p"
| "written (WriteFile q a # es) p =
     (case written es p of Some b \<Rightarrow> Some b | None \<Rightarrow> if q = p then Some a else None)"

text \<open>The charts drawn in a run: the rows each one plots.\<close>

fun charts :: "effect list \<Rightarrow> table list" where
  "charts [] = []"
| "charts (WriteFile p (BarChart title rows) # es) = rows # charts es"
| "charts (e # es) = charts es"

section \<open>The specification's reading of the tokenizer\<close>

text \<open>
  The token pattern in words, for a class \<open>cls\<close> of characters: one or more characters
  of the class, optionally followed by an apostrophe and one or more characters of the
  class.
\<close>

definition run :: "(nat \<Rightarrow> bool) \<Rightarrow> ustring \<Rightarrow> bool" where
  "run cls u \<longleftrightarrow> u \<noteq> [] \<and> list_all cls u"

definition in_pattern :: "(nat \<Rightarrow> bool) \<Rightarrow> ustring \<Rightarrow> bool" where
  "in_pattern cls t \<longleftrightarrow>
     run cls t
     \<or> list_ex (\<lambda>k. run cls (take k t) \<and> t ! k = 39 \<and> run cls (drop (Suc k) t)) [0..<length t]"

text \<open>
  The maximal runs matching the pattern, taken from left to right: at each position the
  longest prefix of the rest of the text that matches the pattern is a token and the scan
  continues after it; where no prefix matches, the scan skips one character.
\<close>

definition longest_match :: "(nat \<Rightarrow> bool) \<Rightarrow> ustring \<Rightarrow> ustring option" where
  "longest_match cls s = List.find (in_pattern cls) (rev (prefixes s))"

lemma longest_match_nonempty: "longest_match cls s = Some t \<Longrightarrow> t \<noteq> []"
  by (auto simp: longest_match_def find_Some_iff in_pattern_def run_def)

function leftmost_longest :: "(nat \<Rightarrow> bool) \<Rightarrow> ustring \<Rightarrow> ustring list" where
  "leftmost_longest cls [] = []"
| "leftmost_longest cls (c # cs) =
     (case longest_match cls (c # cs) of
        None \<Rightarrow> leftmost_longest cls cs
      | Some t \<Rightarrow> t # leftmost_longest cls (drop (length t) (c # cs)))"
  by pat_completeness auto
termination
  by (relation "measure (\<lambda>(cls, s). length s)") (auto dest: longest_match_nonempty)

text \<open>
  ``Alphanumeric characters'' are letters and digits. Below U+0100 these are the ASCII
  digits and letters, the ordinal indicators and the micro sign (U+00AA, U+00BA, U+00B5),
  and the letters from U+00C0 to U+00FF (all but the multiplication and division signs
  U+00D7 and U+00F7). The letters and digits of other scripts lie above U+00FF and are not
  listed: the definition is for text in Latin-1.
\<close>

definition latin1_alphanumeric :: "nat \<Rightarrow> bool" where
  "latin1_alphanumeric c \<longleftrightarrow>
     (48 \<le> c \<and> c \<le> 57) \<or> (65 \<le> c \<and> c \<le> 90) \<or> (97 \<le> c \<and> c \<le> 122)
     \<or> c = 0xAA \<or> c = 0xB5 \<or> c = 0xBA
     \<or> (0xC0 \<le> c \<and> c \<le> 0xFF \<and> c \<noteq> 0xD7 \<and> c \<noteq> 0xF7)"

text \<open>
  The match of \<open>token_re\<close> at the start of \<open>s\<close> in closed form, and what it leaves: the
  whole run of \<open>[a-z0-9]\<close>, and the apostrophe group when a character of \<open>[a-z0-9]\<close>
  follows the apostrophe.
\<close>

definition greedy_rest :: "ustring \<Rightarrow> ustring" where
  "greedy_rest s =
     (case dropWhile az09 s of
        [] \<Rightarrow> []
      | c # r1 \<Rightarrow>
          if c = 39 \<and> r1 \<noteq> [] \<and> az09 (hd r1) then dropWhile az09 r1 else c # r1)"

definition greedy :: "ustring \<Rightarrow> ustring" where
  "greedy s =
     takeWhile az09 s @
     (case dropWhile az09 s of
        [] \<Rightarrow> []
      | c # r1 \<Rightarrow>
          if c = 39 \<and> r1 \<noteq> [] \<and> az09 (hd r1) then 39 # takeWhile az09 r1 else [])"

section \<open>Encounter order\<close>

text \<open>The position at which a word first occurs in the token sequence.\<close>

definition first_index :: "ustring list \<Rightarrow> ustring \<Rightarrow> nat" where
  "first_index tokens w = length (takeWhile (\<lambda>t. t \<noteq> w) tokens)"

section \<open>A table too large for a sheet\<close>

text \<open>
  A table with more rows than a sheet holds, one the pipeline can produce: the 1,048,577
  distinct seven-digit tokens from 1000000 to 2048576, each counted once.
\<close>

definition big_table :: table where
  "big_table = map (\<lambda>i. (ascii (str_nat (1000000 + i)), 1)) [0..<1048577]"

section \<open>An example environment\<close>

text \<open>
  A concrete environment for running the program on ASCII text: compatibility
  normalization leaves ASCII text unchanged, lowercasing is \<open>ascii_lower\<close>, the sort is the
  stable one, and the table is rendered one row per line.
\<close>

definition plain_table :: "table \<Rightarrow> string" where
  "plain_table df = join_lines (''word total'' # map (\<lambda>(w, c). map char_of w @ '' '' @ str_int c) df)"

definition example_env :: env where
  "example_env =
     \<lparr>PROJECT_ROOT = ''/repo'',
      now = ''2024-01-01 12:00:00'',
      to_string = plain_table,
      nfkc = (\<lambda>t. t),
      str_lower = ascii_lower,
      sort_values = sort_stable_desc,
      nltk_english = Some (map ascii [''the'', ''and'', ''my'', ''is'', ''to''])\<rparr>"

definition empty_fs :: fs where
  "empty_fs = \<lparr>files = Map.empty, dirs = {}\<rparr>"

definition example_corpus :: ustring where
  "example_corpus = ascii ''I can't reset my password, please help. Password reset password.''"

definition example_fs :: fs where
  "example_fs =
     \<lparr>files = [''/repo/data/customer_support_text_corpus.txt'' \<mapsto> example_corpus],
      dirs = {''/repo'', ''/repo/data''}\<rparr>"

section \<open>Properties of the counter and the sort\<close>

lemma counter_add_keys: "set (map fst (counter_add m t)) = insert t (set (map fst m))"
  by (induction m t rule: counter_add.induct) auto

lemma counter_add_distinct: "distinct (map fst m) \<Longrightarrow> distinct (map fst (counter_add m t))"
proof (induction m t rule: counter_add.induct)
  case (1 t)
  then show ?case by simp
next
  case (2 k c m t)
  then show ?case
    using counter_add_keys [of m t] by (auto simp del: set_map)
qed

lemma counter_add_sum: "sum_list (map snd (counter_add m t)) = sum_list (map snd m) + 1"
  by (induction m t rule: counter_add.induct) auto

lemma counter_add_positive:
  "(\<forall>r \<in> set m. 1 \<le> snd r) \<Longrightarrow> (\<forall>r \<in> set (counter_add m t). 1 \<le> snd r)"
  by (induction m t rule: counter_add.induct) auto

lemma foldl_counter_add_keys:
  "set (map fst (foldl counter_add m ts)) = set (map fst m) \<union> set ts"
  by (induction ts arbitrary: m) (auto simp: counter_add_keys simp del: set_map)

lemma foldl_counter_add_distinct:
  "distinct (map fst m) \<Longrightarrow> distinct (map fst (foldl counter_add m ts))"
  by (induction ts arbitrary: m) (auto simp: counter_add_distinct)

lemma foldl_counter_add_sum:
  "sum_list (map snd (foldl counter_add m ts)) = sum_list (map snd m) + int (length ts)"
  by (induction ts arbitrary: m) (auto simp: counter_add_sum)

lemma foldl_counter_add_positive:
  "(\<forall>r \<in> set m. 1 \<le> snd r) \<Longrightarrow> (\<forall>r \<in> set (foldl counter_add m ts). 1 \<le> snd r)"
proof (induction ts arbitrary: m)
  case Nil
  then show ?case by simp
next
  case (Cons t ts)
  have "\<forall>r \<in> set (counter_add m t). 1 \<le> snd r"
    using Cons.prems by (rule counter_add_positive)
  then show ?case
    using Cons.IH [of "counter_add m t"] by simp
qed

lemma Counter_keys: "fst ` set (Counter tokens) = set tokens"
  using foldl_counter_add_keys [of "[]" tokens] by (simp add: Counter_def)

lemma Counter_distinct: "distinct (map fst (Counter tokens))"
  using foldl_counter_add_distinct [of "[]" tokens] by (simp add: Counter_def)

lemma Counter_sum: "sum_list (map snd (Counter tokens)) = int (length tokens)"
  using foldl_counter_add_sum [of "[]" tokens] by (simp add: Counter_def)

lemma Counter_positive: "r \<in> set (Counter tokens) \<Longrightarrow> 1 \<le> snd r"
  using foldl_counter_add_positive [of "[]" tokens] by (simp add: Counter_def)


lemma sort_stable_desc_ok: "sorts_descending sort_stable_desc"
proof -
  have "sorted_wrt (\<lambda>r s. snd s \<le> snd r) (sort_key (\<lambda>r. - snd r) df)" for df :: table
    using sorted_sort_key [of "\<lambda>r. - snd r" df]
    by (simp add: sorted_map)
  then show ?thesis
    by (simp add: sorts_descending_def sort_stable_desc_def)
qed

lemma sort_asc_reversed_ok: "sorts_descending sort_asc_reversed"
proof -
  have "sorted_wrt (\<lambda>r s. snd s \<le> snd r) (rev (sort_key snd df))" for df :: table
    using sorted_sort_key [of snd df]
    by (simp add: sorted_map sorted_wrt_rev)
  then show ?thesis
    by (simp add: sorts_descending_def sort_asc_reversed_def)
qed

lemma filter_greatest_subseq:
  assumes "subseq ys xs" and "\<forall>y \<in> set ys. P y"
  shows "subseq ys (filter P xs)"
proof -
  have "filter P ys = ys"
    using assms(2) by (simp add: filter_id_conv)
  with subseq_filter [OF assms(1), of P] show ?thesis by simp
qed

lemma counter_add_map_of:
  "map_of (counter_add m t) w =
     (if w = t then Some (case map_of m t of None \<Rightarrow> 1 | Some c \<Rightarrow> c + 1) else map_of m w)"
  by (induction m t rule: counter_add.induct) auto

lemma foldl_counter_add_map_of:
  "map_of (foldl counter_add m ts) w =
     (case map_of m w of
        None \<Rightarrow> if w \<in> set ts then Some (int (count_list ts w)) else None
      | Some c \<Rightarrow> Some (c + int (count_list ts w)))"
  by (induction ts arbitrary: m) (auto simp: counter_add_map_of split: option.splits)

lemma Counter_count:
  "(w, c) \<in> set (Counter tokens) \<longleftrightarrow> w \<in> set tokens \<and> c = int (count_list tokens w)"
proof -
  have "(w, c) \<in> set (Counter tokens) \<longleftrightarrow> map_of (Counter tokens) w = Some c"
    using Counter_distinct [of tokens] by simp
  also have "\<dots> \<longleftrightarrow> w \<in> set tokens \<and> c = int (count_list tokens w)"
    using foldl_counter_add_map_of [of "[]" tokens w] by (auto simp: Counter_def)
  finally show ?thesis .
qed

lemma sorted_contract_set: "sorts_descending srt \<Longrightarrow> set (srt df) = set df"
  unfolding sorts_descending_def by (metis set_mset_mset)

lemma count_tokens_set: "sorts_descending srt \<Longrightarrow> set (count_tokens srt tokens) = set (Counter tokens)"
  by (simp add: count_tokens_def sorted_contract_set)

section \<open>Frequency Aggregator: totals and rows\<close>

text \<open>
  Claim C3. For every token sequence, the counts of the rows of the frequency table that
  \<open>count_tokens\<close> returns add up to the length of the sequence, and for the empty
  sequence the table is empty. \<open>count_tokens\<close> has no failing branch: it is a total
  function to tables. The sort routine is any routine that returns the rows rearranged in
  descending order of total.
\<close>

theorem count_tokens_sum:
  assumes "sorts_descending srt"
  shows "sum_list (map snd (count_tokens srt tokens)) = int (length tokens)
         \<and> count_tokens srt [] = []"
proof
  have "mset (count_tokens srt tokens) = mset (Counter tokens)"
    using assms by (simp add: count_tokens_def sorts_descending_def)
  then have "mset (map snd (count_tokens srt tokens)) = mset (map snd (Counter tokens))"
    by (metis mset_map)
  then have "sum_list (map snd (count_tokens srt tokens)) = sum_list (map snd (Counter tokens))"
    by (metis sum_mset_sum_list)
  then show "sum_list (map snd (count_tokens srt tokens)) = int (length tokens)"
    by (simp add: Counter_sum)
  have "mset (count_tokens srt []) = {#}"
    using assms by (simp add: count_tokens_def sorts_descending_def Counter_def)
  then show "count_tokens srt [] = []" by simp
qed

theorem count_tokens_sum_witness:
  "sorts_descending sort_stable_desc
   \<and> count_tokens sort_stable_desc [ascii ''reset'', ascii ''password'', ascii ''reset'']
       = [(ascii ''reset'', 2), (ascii ''password'', 1)]
   \<and> sum_list (map snd (count_tokens sort_stable_desc
        [ascii ''reset'', ascii ''password'', ascii ''reset''])) = 3
   \<and> count_tokens sort_stable_desc [] = []"
  using count_tokens_sum [OF sort_stable_desc_ok,
      of "[ascii ''reset'', ascii ''password'', ascii ''reset'']"]
    sort_stable_desc_ok
  by (simp add: count_tokens_def Counter_def sort_stable_desc_def ascii_def)

text \<open>
  Claim C10. Every row of the frequency table has a count of at least 1 (it is the number
  of occurrences of the row's word in the input), and a word has a row if and only if it
  occurs in the input sequence.
\<close>

theorem count_tokens_rows:
  assumes "sorts_descending srt"
  shows "(\<forall>r \<in> set (count_tokens srt tokens).
            1 \<le> snd r \<and> snd r = int (count_list tokens (fst r)))
         \<and> (\<forall>w. (\<exists>c. (w, c) \<in> set (count_tokens srt tokens)) \<longleftrightarrow> w \<in> set tokens)"
  using Counter_count [of _ _ tokens] Counter_positive [of _ tokens]
  by (auto simp: count_tokens_set [OF assms])

theorem count_tokens_rows_witness:
  "sorts_descending sort_asc_reversed
   \<and> count_tokens sort_asc_reversed [ascii ''help'', ascii ''reset'', ascii ''help'']
       = [(ascii ''help'', 2), (ascii ''reset'', 1)]
   \<and> list_all
         (\<lambda>r. 1 \<le> snd r
            \<and> snd r = int (count_list [ascii ''help'', ascii ''reset'', ascii ''help''] (fst r)))
         (count_tokens sort_asc_reversed [ascii ''help'', ascii ''reset'', ascii ''help''])
   \<and> (\<exists>c. (ascii ''reset'', c)
          \<in> set (count_tokens sort_asc_reversed [ascii ''help'', ascii ''reset'', ascii ''help'']))
   \<and> \<not> (\<exists>c. (ascii ''cant'', c)
          \<in> set (count_tokens sort_asc_reversed [ascii ''help'', ascii ''reset'', ascii ''help'']))"
proof -
  let ?tokens = "[ascii ''help'', ascii ''reset'', ascii ''help'']"
  note inst = count_tokens_rows [OF sort_asc_reversed_ok, of ?tokens]
  have eval: "count_tokens sort_asc_reversed ?tokens = [(ascii ''help'', 2), (ascii ''reset'', 1)]"
    by (simp add: count_tokens_def Counter_def sort_asc_reversed_def ascii_def)
  have "ascii ''reset'' \<in> set ?tokens" by simp
  then have in_row: "\<exists>c. (ascii ''reset'', c) \<in> set (count_tokens sort_asc_reversed ?tokens)"
    using inst by blast
  have "ascii ''cant'' \<notin> set ?tokens" by (simp add: ascii_def)
  then have no_row: "\<not> (\<exists>c. (ascii ''cant'', c) \<in> set (count_tokens sort_asc_reversed ?tokens))"
    using inst by blast
  have rows: "list_all
      (\<lambda>r. 1 \<le> snd r \<and> snd r = int (count_list ?tokens (fst r)))
      (count_tokens sort_asc_reversed ?tokens)"
    using inst unfolding list_all_iff by blast
  show ?thesis
    using sort_asc_reversed_ok eval rows in_row no_row by blast
qed

section \<open>The token pattern and the regular-expression engine\<close>

lemma greedy_split: "greedy s @ greedy_rest s = s"
proof (cases "dropWhile az09 s")
  case Nil
  then have "takeWhile az09 s = s" by (simp add: takeWhile_eq_all_conv)
  then show ?thesis
    unfolding greedy_def greedy_rest_def Nil by simp
next
  case (Cons c r1)
  have "takeWhile az09 s @ c # r1 = s"
    using takeWhile_dropWhile_id [of az09 s] Cons by simp
  moreover have "takeWhile az09 r1 @ dropWhile az09 r1 = r1"
    by simp
  ultimately show ?thesis
    unfolding greedy_def greedy_rest_def Cons by (simp del: takeWhile_dropWhile_id) metis
qed

lemma ends_plus_class_Nil: "ends (Plus (Class p)) [] = []"
  by simp

lemma ends_plus_class_Cons:
  "ends (Plus (Class p)) (c # r) = (if p c then ends (Plus (Class p)) r @ [r] else [])"
  by simp

lemma ends_plus_class_hd:
  "s \<noteq> [] \<Longrightarrow> p (hd s) \<Longrightarrow> \<exists>rest. ends (Plus (Class p)) s = dropWhile p s # rest"
proof (induction s)
  case Nil
  then show ?case by simp
next
  case (Cons c r)
  show ?case
  proof (cases "r \<noteq> [] \<and> p (hd r)")
    case True
    with Cons.IH obtain rest where "ends (Plus (Class p)) r = dropWhile p r # rest" by auto
    with Cons.prems show ?thesis by (simp only: ends_plus_class_Cons) simp
  next
    case False
    then have "ends (Plus (Class p)) r = []" by (cases r) auto
    moreover have "dropWhile p r = r" using False by (cases r) auto
    ultimately show ?thesis using Cons.prems by (simp only: ends_plus_class_Cons) simp
  qed
qed

lemma ends_plus_class_empty:
  "s = [] \<or> \<not> p (hd s) \<Longrightarrow> ends (Plus (Class p)) s = []"
  by (cases s) auto

lemma ends_token_re_none: "s = [] \<or> \<not> az09 (hd s) \<Longrightarrow> ends token_re s = []"
  unfolding token_re_def by (simp only: ends.simps(3) ends_plus_class_empty) simp

lemma ends_group:
  "ends (Seq (Lit 39) (Plus (Class az09))) r0 =
     (case r0 of [] \<Rightarrow> [] | c # r1 \<Rightarrow> if c = 39 then ends (Plus (Class az09)) r1 else [])"
  by (cases r0) (simp_all del: ends.simps(5))

lemma ends_opt_group_hd:
  "\<exists>rest. ends (Opt (Seq (Lit 39) (Plus (Class az09)))) r0 =
     (case r0 of
        [] \<Rightarrow> []
      | c # r1 \<Rightarrow> if c = 39 \<and> r1 \<noteq> [] \<and> az09 (hd r1) then dropWhile az09 r1 else c # r1) # rest"
proof (cases r0)
  case Nil
  then show ?thesis by (simp add: ends_group del: ends.simps(3,5))
next
  case (Cons c r1)
  show ?thesis
  proof (cases "c = 39 \<and> r1 \<noteq> [] \<and> az09 (hd r1)")
    case True
    then obtain rest where "ends (Plus (Class az09)) r1 = dropWhile az09 r1 # rest"
      using ends_plus_class_hd [of r1 az09] by auto
    with True Cons show ?thesis by (simp add: ends_group del: ends.simps(3,5))
  next
    case False
    then have "c \<noteq> 39 \<or> ends (Plus (Class az09)) r1 = []"
      using ends_plus_class_empty [of r1 az09] by auto
    with False Cons show ?thesis by (auto simp add: ends_group simp del: ends.simps(3,5))
  qed
qed

lemma ends_token_re_hd:
  assumes "s \<noteq> []" and "az09 (hd s)"
  shows "\<exists>rest. ends token_re s = greedy_rest s # rest"
proof -
  obtain rest1 where 1: "ends (Plus (Class az09)) s = dropWhile az09 s # rest1"
    using ends_plus_class_hd [of s az09] assms by auto
  obtain rest2 where 2: "ends (Opt (Seq (Lit 39) (Plus (Class az09)))) (dropWhile az09 s)
      = greedy_rest s # rest2"
    using ends_opt_group_hd [of "dropWhile az09 s"] by (auto simp: greedy_rest_def)
  have "ends token_re s =
      concat (map (ends (Opt (Seq (Lit 39) (Plus (Class az09))))) (ends (Plus (Class az09)) s))"
    unfolding token_re_def by (simp only: ends.simps(3))
  also have "\<dots> = greedy_rest s #
      (rest2 @ concat (map (ends (Opt (Seq (Lit 39) (Plus (Class az09))))) rest1))"
    by (simp only: 1 2 list.map concat.simps append_Cons)
  finally show ?thesis by blast
qed

lemma not_az09_apostrophe: "\<not> az09 39"
  by (simp add: az09_def)

lemma in_pattern_iff:
  "in_pattern az09 t \<longleftrightarrow> run az09 t \<or> (\<exists>a b. t = a @ 39 # b \<and> run az09 a \<and> run az09 b)"
proof
  assume "in_pattern az09 t"
  then consider "run az09 t"
    | k where "k < length t" "run az09 (take k t)" "t ! k = 39" "run az09 (drop (Suc k) t)"
    by (auto simp: in_pattern_def list_ex_iff)
  then show "run az09 t \<or> (\<exists>a b. t = a @ 39 # b \<and> run az09 a \<and> run az09 b)"
  proof cases
    case 1
    then show ?thesis by simp
  next
    case 2
    have "t = take k t @ t ! k # drop (Suc k) t"
      using 2(1) by (simp add: id_take_nth_drop)
    with 2 show ?thesis by metis
  qed
next
  assume "run az09 t \<or> (\<exists>a b. t = a @ 39 # b \<and> run az09 a \<and> run az09 b)"
  then show "in_pattern az09 t"
  proof
    assume "run az09 t"
    then show ?thesis by (simp add: in_pattern_def)
  next
    assume "\<exists>a b. t = a @ 39 # b \<and> run az09 a \<and> run az09 b"
    then obtain a b where t: "t = a @ 39 # b" and "run az09 a" "run az09 b" by blast
    then have "length a < length t \<and> run az09 (take (length a) t) \<and> t ! length a = 39
        \<and> run az09 (drop (Suc (length a)) t)"
      by simp
    then show ?thesis
      unfolding in_pattern_def list_ex_iff by (metis atLeast0LessThan lessThan_iff set_upt)
  qed
qed

lemma takeWhile_run_append:
  "list_all az09 a \<Longrightarrow> takeWhile az09 (a @ 39 # r) = a \<and> dropWhile az09 (a @ 39 # r) = 39 # r"
  by (induction a) (simp_all add: not_az09_apostrophe)

lemma greedy_in_pattern:
  assumes "s \<noteq> []" and "az09 (hd s)"
  shows "in_pattern az09 (greedy s)"
proof -
  have a: "run az09 (takeWhile az09 s)"
    using assms by (cases s) (auto simp: run_def list_all_iff dest: set_takeWhileD)
  show ?thesis
  proof (cases "dropWhile az09 s")
    case Nil
    show ?thesis unfolding greedy_def Nil using a by (simp add: in_pattern_iff)
  next
    case (Cons c r1)
    show ?thesis
    proof (cases "c = 39 \<and> r1 \<noteq> [] \<and> az09 (hd r1)")
      case True
      then have "run az09 (takeWhile az09 r1)"
        by (cases r1) (auto simp: run_def list_all_iff dest: set_takeWhileD)
      with a True Cons show ?thesis
        unfolding in_pattern_iff greedy_def by auto
    next
      case False
      with a Cons show ?thesis by (auto simp: greedy_def in_pattern_iff)
    qed
  qed
qed

lemma run_prefix_takeWhile:
  "list_all az09 t \<Longrightarrow> prefix t s \<Longrightarrow> length t \<le> length (takeWhile az09 s)"
proof (induction t arbitrary: s)
  case Nil
  then show ?case by simp
next
  case (Cons x t)
  then show ?case by (cases s) auto
qed

lemma length_takeWhile_le_greedy: "length (takeWhile az09 s) \<le> length (greedy s)"
  by (simp add: greedy_def)

lemma pattern_prefix_bound:
  assumes "in_pattern az09 t" and "prefix t s"
  shows "s \<noteq> [] \<and> az09 (hd s) \<and> length t \<le> length (greedy s)"
proof -
  from assms(1) consider "run az09 t" | a b where "t = a @ 39 # b" "run az09 a" "run az09 b"
    unfolding in_pattern_iff by blast
  then show ?thesis
  proof cases
    case 1
    then obtain x t' where t: "t = x # t'" "az09 x" by (cases t) (auto simp: run_def)
    with assms(2) have "s \<noteq> [] \<and> az09 (hd s)" by (cases s) auto
    moreover have "length t \<le> length (takeWhile az09 s)"
      using 1 assms(2) by (simp add: run_def run_prefix_takeWhile)
    ultimately show ?thesis
      using length_takeWhile_le_greedy [of s] by simp
  next
    case 2
    from assms(2) 2(1) obtain rest where s: "s = a @ 39 # (b @ rest)"
      by (auto simp: prefix_def)
    obtain x a' where a: "a = x # a'" "az09 x" using 2(2) by (cases a) (auto simp: run_def)
    obtain y b' where b: "b = y # b'" "az09 y" using 2(3) by (cases b) (auto simp: run_def)
    have tw: "takeWhile az09 s = a" "dropWhile az09 s = 39 # (b @ rest)"
      using takeWhile_run_append [of a "b @ rest"] 2(2) by (simp_all add: s run_def)
    have "length b \<le> length (takeWhile az09 (b @ rest))"
      using 2(3) by (simp add: run_def run_prefix_takeWhile)
    then have "length t \<le> length (greedy s)"
      unfolding greedy_def tw using b by (simp add: 2(1))
    moreover have "s \<noteq> [] \<and> az09 (hd s)" using a s by simp
    ultimately show ?thesis by simp
  qed
qed

lemma prefixes_lengths: "sorted_wrt (\<lambda>a b. length a < length b) (prefixes s)"
  by (induction s) (auto simp: sorted_wrt_map)

lemma find_longest:
  "sorted_wrt (\<lambda>a b. length b < length a) xs \<Longrightarrow> g \<in> set xs \<Longrightarrow> P g \<Longrightarrow>
   (\<forall>y \<in> set xs. P y \<longrightarrow> length y \<le> length g) \<Longrightarrow> List.find P xs = Some g"
  by (induction xs) (auto simp: leD)

lemma longest_match_eq:
  "longest_match az09 s = (if s \<noteq> [] \<and> az09 (hd s) then Some (greedy s) else None)"
proof (cases "s \<noteq> [] \<and> az09 (hd s)")
  case True
  have "prefix (greedy s) s"
    using greedy_split [of s] by (metis prefixI)
  moreover have "sorted_wrt (\<lambda>a b. length b < length a) (rev (prefixes s))"
    using prefixes_lengths [of s] by (simp add: sorted_wrt_rev)
  ultimately have "List.find (in_pattern az09) (rev (prefixes s)) = Some (greedy s)"
    using True greedy_in_pattern [of s] pattern_prefix_bound [of _ s]
    by (intro find_longest) auto
  with True show ?thesis by (simp add: longest_match_def)
next
  case False
  then have "List.find (in_pattern az09) (rev (prefixes s)) = None"
    using pattern_prefix_bound [of _ s] by (auto simp: find_None_iff)
  with False show ?thesis by (simp add: longest_match_def)
qed

lemma greedy_nonempty: "s \<noteq> [] \<Longrightarrow> az09 (hd s) \<Longrightarrow> greedy s \<noteq> []"
  by (cases s) (auto simp: greedy_def)

lemma findall_token_re_aux: "cls = az09 \<Longrightarrow> findall token_re s = leftmost_longest cls s"
proof (induction cls s rule: leftmost_longest.induct)
  case (1 cls)
  show ?case by (simp add: ends_token_re_none)
next
  case (2 cls c cs)
  note cls = \<open>cls = az09\<close>
  show ?case
  proof (cases "az09 c")
    case False
    then have "longest_match cls (c # cs) = None" by (simp add: cls longest_match_eq)
    with 2(1) [OF _ cls] False show ?thesis by (simp add: ends_token_re_none)
  next
    case True
    then have lm: "longest_match cls (c # cs) = Some (greedy (c # cs))"
      by (simp add: cls longest_match_eq)
    obtain rest where e: "ends token_re (c # cs) = greedy_rest (c # cs) # rest"
      using ends_token_re_hd [of "c # cs"] True by auto
    have sp: "greedy (c # cs) @ greedy_rest (c # cs) = c # cs"
      by (rule greedy_split)
    have ne: "greedy (c # cs) \<noteq> []"
      using True by (simp add: greedy_nonempty)
    have len: "length (greedy (c # cs)) + length (greedy_rest (c # cs)) = Suc (length cs)"
      using arg_cong [OF sp, of length] by simp
    have lt: "length (greedy_rest (c # cs)) < length (c # cs)"
      using len ne by (cases "greedy (c # cs)") auto
    have tk: "take (length (c # cs) - length (greedy_rest (c # cs))) (c # cs) = greedy (c # cs)"
      using len sp by (metis add_diff_cancel_right' append_eq_conv_conj length_Cons)
    have dr: "drop (length (greedy (c # cs))) (c # cs) = greedy_rest (c # cs)"
      using sp by (metis append_eq_conv_conj)
    have "findall token_re (c # cs) = greedy (c # cs) # findall token_re (greedy_rest (c # cs))"
      using lt tk by (simp only: findall.simps e list.case if_True)
    also have "\<dots> = greedy (c # cs) # leftmost_longest cls (greedy_rest (c # cs))"
      using 2(2) [OF lm cls] dr by simp
    also have "\<dots> = leftmost_longest cls (c # cs)"
      using lm dr by simp
    finally show ?thesis .
  qed
qed

lemma findall_token_re: "findall token_re s = leftmost_longest az09 s"
  by (rule findall_token_re_aux) simp

lemma leftmost_longest_in_pattern: "t \<in> set (leftmost_longest cls s) \<Longrightarrow> in_pattern cls t"
proof (induction cls s rule: leftmost_longest.induct)
  case (1 cls)
  then show ?case by simp
next
  case (2 cls c cs)
  show ?case
  proof (cases "longest_match cls (c # cs)")
    case None
    with 2 show ?thesis by simp
  next
    case (Some u)
    then have "in_pattern cls u"
      by (auto simp: longest_match_def find_Some_iff)
    with 2 Some show ?thesis by auto
  qed
qed

section \<open>Tokenizer: what \<open>tokenize\<close> returns\<close>

text \<open>
  Claim C5, as stated: \<open>tokenize\<close> returns the maximal runs, from left to right, that
  match the pattern ``one or more alphanumeric characters, optionally followed by an
  apostrophe and more alphanumeric characters''. It fails on a letter outside ASCII: the
  lowercase word of the letters c, a, f and e with acute accent (code points 0x63, 0x61,
  0x66, 0xE9, which \<open>str.lower\<close> leaves as they are) is one run of four alphanumeric
  characters, and \<open>tokenize\<close> returns its first three letters: the program's character
  class is \<open>[a-z0-9]\<close>.
\<close>

theorem tokenize_ascii_only:
  "latin1_alphanumeric 0xE9
   \<and> leftmost_longest latin1_alphanumeric [0x63, 0x61, 0x66, 0xE9] = [[0x63, 0x61, 0x66, 0xE9]]
   \<and> tokenize (\<lambda>t. t) [0x63, 0x61, 0x66, 0xE9] = [[0x63, 0x61, 0x66]]
   \<and> tokenize (\<lambda>t. t) [0x63, 0x61, 0x66, 0xE9]
       \<noteq> leftmost_longest latin1_alphanumeric [0x63, 0x61, 0x66, 0xE9]"
  by code_simp

text \<open>
  Claim C5, amended: for every normalized input string, \<open>tokenize\<close> lowercases the text
  and returns, in left-to-right order of occurrence and retaining duplicates, the maximal
  runs matching the pattern ``one or more characters of \<open>[a-z0-9]\<close>, optionally followed
  by an apostrophe and more characters of \<open>[a-z0-9]\<close>'' (ASCII lowercase letters and
  digits; at each position of the left-to-right scan, the longest match that starts
  there). Every token matches the pattern, and for the empty string, as for every string
  whose lowercased text is empty, the result is the empty sequence.
\<close>

theorem tokenize_leftmost_longest:
  "tokenize lwr text = leftmost_longest az09 (lwr text)
   \<and> (\<forall>t \<in> set (tokenize lwr text). in_pattern az09 t)
   \<and> (lwr text = [] \<longrightarrow> tokenize lwr text = [])"
proof (intro conjI)
  show eq: "tokenize lwr text = leftmost_longest az09 (lwr text)"
    by (simp only: tokenize_def findall_token_re)
  show "\<forall>t \<in> set (tokenize lwr text). in_pattern az09 t"
    unfolding eq by (blast intro: leftmost_longest_in_pattern)
  show "lwr text = [] \<longrightarrow> tokenize lwr text = []"
    unfolding eq by simp
qed

theorem tokenize_leftmost_longest_witness:
  "ascii_lower [] = []
   \<and> tokenize ascii_lower [] = []
   \<and> tokenize ascii_lower (ascii ''I can't, CAN'T I?'')
       = [ascii ''i'', ascii ''can't'', ascii ''can't'', ascii ''i'']
   \<and> leftmost_longest az09 (ascii_lower (ascii ''I can't, CAN'T I?''))
       = [ascii ''i'', ascii ''can't'', ascii ''can't'', ascii ''i'']
   \<and> tokenize ascii_lower (ascii ''rock'n'roll'') = [ascii ''rock'n'', ascii ''roll'']
   \<and> list_all (in_pattern az09) (tokenize ascii_lower (ascii ''I can't, CAN'T I?''))"
proof -
  have low: "ascii_lower [] = []"
    by (simp add: ascii_lower_def)
  have empty: "tokenize ascii_lower [] = []"
    using tokenize_leftmost_longest [of ascii_lower "[]"] low by simp
  have eval: "tokenize ascii_lower (ascii ''I can't, CAN'T I?'')
      = [ascii ''i'', ascii ''can't'', ascii ''can't'', ascii ''i'']"
    by code_simp
  have rock: "tokenize ascii_lower (ascii ''rock'n'roll'') = [ascii ''rock'n'', ascii ''roll'']"
    by code_simp
  have spec: "leftmost_longest az09 (ascii_lower (ascii ''I can't, CAN'T I?''))
      = [ascii ''i'', ascii ''can't'', ascii ''can't'', ascii ''i'']"
    using tokenize_leftmost_longest [of ascii_lower "ascii ''I can't, CAN'T I?''"] eval by simp
  have pat: "list_all (in_pattern az09) (tokenize ascii_lower (ascii ''I can't, CAN'T I?''))"
    using tokenize_leftmost_longest [of ascii_lower "ascii ''I can't, CAN'T I?''"]
    unfolding list_all_iff by blast
  show ?thesis
    using low empty eval rock spec pat by blast
qed

section \<open>Stopword Filter: what \<open>filter_tokens\<close> keeps\<close>

lemma count_list_filter:
  "count_list (filter P xs) x = (if P x then count_list xs x else 0)"
  by (induction xs) auto

text \<open>
  Claim C2. \<open>filter_tokens\<close> keeps a token if and only if its length is at least the
  minimum length and it is not in the stopword set: every occurrence of such a token is
  kept and no other, in the order of the input (the result is the greatest subsequence of
  the input whose tokens all pass). Consequently every word of the frequency table built
  from the filtered tokens has length at least the minimum and is not a stopword.
\<close>

theorem filter_tokens_retains:
  assumes "sorts_descending srt"
  shows "(\<forall>t. t \<in> set (filter_tokens tokens sw m)
              \<longleftrightarrow> t \<in> set tokens \<and> m \<le> int (length t) \<and> t \<notin> sw)
         \<and> (\<forall>t. count_list (filter_tokens tokens sw m) t
                = (if m \<le> int (length t) \<and> t \<notin> sw then count_list tokens t else 0))
         \<and> subseq (filter_tokens tokens sw m) tokens
         \<and> (\<forall>ys. subseq ys tokens \<and> (\<forall>t \<in> set ys. m \<le> int (length t) \<and> t \<notin> sw)
                \<longrightarrow> subseq ys (filter_tokens tokens sw m))
         \<and> (\<forall>r \<in> set (count_tokens srt (filter_tokens tokens sw m)).
                m \<le> int (length (fst r)) \<and> fst r \<notin> sw)"
proof (intro conjI)
  show "\<forall>t. t \<in> set (filter_tokens tokens sw m)
          \<longleftrightarrow> t \<in> set tokens \<and> m \<le> int (length t) \<and> t \<notin> sw"
    by (auto simp: filter_tokens_def)
  show "\<forall>t. count_list (filter_tokens tokens sw m) t
          = (if m \<le> int (length t) \<and> t \<notin> sw then count_list tokens t else 0)"
    by (simp add: filter_tokens_def count_list_filter)
  show "subseq (filter_tokens tokens sw m) tokens"
    by (simp add: filter_tokens_def)
  show "\<forall>ys. subseq ys tokens \<and> (\<forall>t \<in> set ys. m \<le> int (length t) \<and> t \<notin> sw)
          \<longrightarrow> subseq ys (filter_tokens tokens sw m)"
    unfolding filter_tokens_def by (blast intro: filter_greatest_subseq)
  have "fst ` set (count_tokens srt (filter_tokens tokens sw m))
      = set (filter_tokens tokens sw m)"
    using assms by (simp add: count_tokens_set Counter_keys)
  then show "\<forall>r \<in> set (count_tokens srt (filter_tokens tokens sw m)).
      m \<le> int (length (fst r)) \<and> fst r \<notin> sw"
    by (auto simp: filter_tokens_def)
qed

theorem filter_tokens_retains_witness:
  "sorts_descending sort_stable_desc
   \<and> filter_tokens
        [ascii ''please'', ascii ''reset'', ascii ''my'', ascii ''password'', ascii ''reset'']
        (set [ascii ''please'', ascii ''the'']) 4
       = [ascii ''reset'', ascii ''password'', ascii ''reset'']
   \<and> subseq [ascii ''reset'', ascii ''password'', ascii ''reset'']
        [ascii ''please'', ascii ''reset'', ascii ''my'', ascii ''password'', ascii ''reset'']
   \<and> list_all (\<lambda>r. 4 \<le> int (length (fst r)) \<and> fst r \<notin> set [ascii ''please'', ascii ''the''])
        (count_tokens sort_stable_desc
          (filter_tokens
            [ascii ''please'', ascii ''reset'', ascii ''my'', ascii ''password'', ascii ''reset'']
            (set [ascii ''please'', ascii ''the'']) 4))"
proof -
  let ?tokens =
    "[ascii ''please'', ascii ''reset'', ascii ''my'', ascii ''password'', ascii ''reset'']"
  let ?sw = "set [ascii ''please'', ascii ''the'']"
  note inst = filter_tokens_retains [OF sort_stable_desc_ok, of ?tokens ?sw 4]
  have eval: "filter_tokens ?tokens ?sw 4 = [ascii ''reset'', ascii ''password'', ascii ''reset'']"
    by (simp add: filter_tokens_def ascii_def)
  have sub: "subseq [ascii ''reset'', ascii ''password'', ascii ''reset''] ?tokens"
    using inst eval by simp
  have rows: "list_all (\<lambda>r. 4 \<le> int (length (fst r)) \<and> fst r \<notin> ?sw)
      (count_tokens sort_stable_desc (filter_tokens ?tokens ?sw 4))"
    using inst unfolding list_all_iff by blast
  show ?thesis
    using sort_stable_desc_ok eval sub rows by blast
qed

section \<open>Frequency Aggregator: the rows before and after the sort\<close>

text \<open>
  The counter lists the distinct tokens in the order in which they first occur; the sort
  rearranges the rows, so each distinct token still has exactly one row. In which order
  the library's sort leaves rows of equal count is not decided by the program.
\<close>

lemma Counter_snoc: "Counter (ts @ [t]) = counter_add (Counter ts) t"
  by (simp add: Counter_def)

lemma counter_add_fst:
  "map fst (counter_add m t) = (if t \<in> fst ` set m then map fst m else map fst m @ [t])"
  by (induction m t rule: counter_add.induct) auto

lemma first_index_snoc_old: "w \<in> set ts \<Longrightarrow> first_index (ts @ [t]) w = first_index ts w"
  by (simp add: first_index_def takeWhile_append1)

lemma first_index_less: "w \<in> set ts \<Longrightarrow> first_index ts w < length ts"
  unfolding first_index_def by (induction ts) auto

lemma first_index_snoc_new: "t \<notin> set ts \<Longrightarrow> first_index (ts @ [t]) t = length ts"
  unfolding first_index_def by (induction ts) auto

lemma Counter_encounter_order:
  "sorted_wrt (\<lambda>a b. first_index tokens a < first_index tokens b) (map fst (Counter tokens))"
proof (induction tokens rule: rev_induct)
  case Nil
  show ?case by (simp add: Counter_def)
next
  case (snoc t ts)
  have keys: "set (map fst (Counter ts)) = set ts"
    using Counter_keys [of ts] by simp
  have old: "sorted_wrt (\<lambda>a b. first_index (ts @ [t]) a < first_index (ts @ [t]) b)
      (map fst (Counter ts))"
    using snoc.IH
    by (rule sorted_wrt_mono_rel [rotated]) (simp add: Counter_keys first_index_snoc_old)
  show ?case
  proof (cases "t \<in> set ts")
    case True
    then show ?thesis
      using old Counter_keys [of ts] by (simp add: Counter_snoc counter_add_fst)
  next
    case False
    have "\<forall>a \<in> set ts. first_index (ts @ [t]) a < first_index (ts @ [t]) t"
      using False by (simp add: first_index_snoc_old first_index_snoc_new first_index_less)
    then show ?thesis
      using old False keys Counter_keys [of ts]
      by (simp add: Counter_snoc counter_add_fst sorted_wrt_append)
  qed
qed

lemma count_tokens_unique:
  assumes "sorts_descending srt"
  shows "distinct (map fst (count_tokens srt tokens))"
    and "fst ` set (count_tokens srt tokens) = set tokens"
proof -
  have "mset (count_tokens srt tokens) = mset (Counter tokens)"
    using assms by (simp add: count_tokens_def sorts_descending_def)
  then have "mset (map fst (count_tokens srt tokens)) = mset (map fst (Counter tokens))"
    by (metis mset_map)
  then show "distinct (map fst (count_tokens srt tokens))"
    using Counter_distinct [of tokens] by (metis mset_eq_imp_distinct_iff)
  show "fst ` set (count_tokens srt tokens) = set tokens"
    using assms by (simp add: count_tokens_set Counter_keys)
qed

section \<open>Report Emitter: the writes of \<open>save_outputs\<close>\<close>

lemma plot_rows: "(if length xs > 50 then take 50 xs else xs) = take 50 xs"
  by simp

text \<open>A table that fits a sheet has a thresholded table that fits a sheet.\<close>

lemma sheet_ok_rows_ge: "sheet_ok df \<Longrightarrow> sheet_ok (rows_ge df threshold)"
proof -
  assume ok: "sheet_ok df"
  have "length (rows_ge df threshold) \<le> length df"
    by (simp add: rows_ge_def)
  moreover have "set (rows_ge df threshold) \<subseteq> set df"
    by (auto simp: rows_ge_def)
  ultimately show ?thesis
    using ok unfolding sheet_ok_def list_all_iff by auto
qed

text \<open>The run of \<open>save_outputs\<close>, write by write, when the workbook is written.\<close>

lemma save_outputs_ok:
  assumes "sheet_ok freq_df"
  shows "save_outputs e freq_df threshold =
     (Inr (),
      [Mkdir (OUTPUT_DIR e),
       WriteFile (csv_all_path (OUTPUT_DIR e)) (CsvFile freq_df),
       WriteFile (csv_ge_path (OUTPUT_DIR e) threshold) (CsvFile (rows_ge freq_df threshold)),
       WriteFile (xlsx_path (OUTPUT_DIR e))
         (Workbook [(''all_tokens'', freq_df),
                    (''tokens_ge_'' @ str_int threshold, rows_ge freq_df threshold)]),
       WriteFile (txt_path (OUTPUT_DIR e))
         (TextFile (join_lines (summary_lines e freq_df threshold))),
       (if rows_ge freq_df threshold = []
        then WriteFile (note_path (OUTPUT_DIR e))
               (TextFile (''No tokens met the threshold of '' @ str_int threshold
                          @ '', so no chart was generated.'' @ [CHR 0x0A]))
        else WriteFile (png_path (OUTPUT_DIR e) threshold)
               (BarChart (''Top tokens (frequency >= '' @ str_int threshold @ '')'')
                  (take 50 (rows_ge freq_df threshold)))),
       WriteFile (log_path (OUTPUT_DIR e))
         (TextFile (join_lines
            (run_log_lines e (path_join (DATA_DIR e) DEFAULT_INPUT_FILE) freq_df threshold
               (OUTPUT_DIR e))
            @ [CHR 0x0A]))])"
  using assms sheet_ok_rows_ge [OF assms, of threshold]
  unfolding save_outputs_def Let_def write_run_log_def plot_rows by simp

text \<open>The run of \<open>save_outputs\<close> when a sheet cannot be written.\<close>

lemma save_outputs_fail:
  assumes "\<not> sheet_ok freq_df"
  shows "save_outputs e freq_df threshold =
     (Inl WorkbookError,
      [Mkdir (OUTPUT_DIR e),
       WriteFile (csv_all_path (OUTPUT_DIR e)) (CsvFile freq_df),
       WriteFile (csv_ge_path (OUTPUT_DIR e) threshold) (CsvFile (rows_ge freq_df threshold)),
       WriteFile (xlsx_path (OUTPUT_DIR e)) Incomplete])"
  using assms unfolding save_outputs_def Let_def by simp

text \<open>The output paths are pairwise different, whatever the directory and the threshold.\<close>

lemma output_paths_distinct:
  "csv_all_path d \<noteq> csv_ge_path d t" "csv_all_path d \<noteq> xlsx_path d"
  "csv_all_path d \<noteq> txt_path d" "csv_all_path d \<noteq> png_path d t"
  "csv_all_path d \<noteq> note_path d" "csv_all_path d \<noteq> log_path d"
  "csv_ge_path d t \<noteq> xlsx_path d" "csv_ge_path d t \<noteq> txt_path d"
  "csv_ge_path d t \<noteq> png_path d t" "csv_ge_path d t \<noteq> note_path d"
  "csv_ge_path d t \<noteq> log_path d"
  "xlsx_path d \<noteq> txt_path d" "xlsx_path d \<noteq> png_path d t"
  "xlsx_path d \<noteq> note_path d" "xlsx_path d \<noteq> log_path d"
  "txt_path d \<noteq> png_path d t" "txt_path d \<noteq> note_path d" "txt_path d \<noteq> log_path d"
  "png_path d t \<noteq> note_path d" "png_path d t \<noteq> log_path d"
  "note_path d \<noteq> log_path d"
  by (simp_all add: csv_all_path_def csv_ge_path_def xlsx_path_def txt_path_def png_path_def
      note_path_def log_path_def path_join_def)

lemma save_outputs_written_paths:
  "written_paths (snd (save_outputs e freq_df threshold)) =
     (if sheet_ok freq_df
      then [csv_all_path (OUTPUT_DIR e),
            csv_ge_path (OUTPUT_DIR e) threshold,
            xlsx_path (OUTPUT_DIR e),
            txt_path (OUTPUT_DIR e),
            (if rows_ge freq_df threshold = [] then note_path (OUTPUT_DIR e)
             else png_path (OUTPUT_DIR e) threshold),
            log_path (OUTPUT_DIR e)]
      else [csv_all_path (OUTPUT_DIR e),
            csv_ge_path (OUTPUT_DIR e) threshold,
            xlsx_path (OUTPUT_DIR e)])"
  by (simp add: save_outputs_ok save_outputs_fail)

lemma save_outputs_charts:
  "charts (snd (save_outputs e freq_df threshold)) =
     (if sheet_ok freq_df \<and> rows_ge freq_df threshold \<noteq> []
      then [take 50 (rows_ge freq_df threshold)] else [])"
  by (cases "sheet_ok freq_df"; cases "rows_ge freq_df threshold = []";
      simp add: save_outputs_ok save_outputs_fail)

lemma save_outputs_result:
  "fst (save_outputs e freq_df threshold) = (if sheet_ok freq_df then Inr () else Inl WorkbookError)"
  by (simp add: save_outputs_ok save_outputs_fail)

lemma save_outputs_written_csv:
  "written (snd (save_outputs e freq_df threshold)) (csv_all_path (OUTPUT_DIR e))
     = Some (CsvFile freq_df)"
  "written (snd (save_outputs e freq_df threshold)) (csv_ge_path (OUTPUT_DIR e) threshold)
     = Some (CsvFile (rows_ge freq_df threshold))"
  "written (snd (save_outputs e freq_df threshold)) (xlsx_path (OUTPUT_DIR e))
     = Some (if sheet_ok freq_df
             then Workbook [(''all_tokens'', freq_df),
                            (''tokens_ge_'' @ str_int threshold, rows_ge freq_df threshold)]
             else Incomplete)"
  by (cases "sheet_ok freq_df";
      simp add: save_outputs_ok save_outputs_fail output_paths_distinct
        output_paths_distinct [THEN not_sym])+

lemma save_outputs_written_chart:
  "sheet_ok freq_df \<Longrightarrow> rows_ge freq_df threshold \<noteq> [] \<Longrightarrow>
   written (snd (save_outputs e freq_df threshold)) (png_path (OUTPUT_DIR e) threshold)
     = Some (BarChart (''Top tokens (frequency >= '' @ str_int threshold @ '')'')
               (take 50 (rows_ge freq_df threshold)))"
  "sheet_ok freq_df \<Longrightarrow> rows_ge freq_df threshold = [] \<Longrightarrow>
   written (snd (save_outputs e freq_df threshold)) (note_path (OUTPUT_DIR e))
     = Some (TextFile (''No tokens met the threshold of '' @ str_int threshold
                       @ '', so no chart was generated.'' @ [CHR 0x0A]))"
  by (simp_all add: save_outputs_ok output_paths_distinct
      output_paths_distinct [THEN not_sym])

text \<open>The tokens of \<open>tokenize\<close> hold no character a sheet refuses.\<close>

lemma in_pattern_legal:
  assumes "in_pattern az09 t"
  shows "\<not> list_ex illegal_character t"
proof -
  have "\<forall>c \<in> set t. az09 c \<or> c = 39"
    using assms unfolding in_pattern_iff run_def list_all_iff by auto
  moreover have "\<not> illegal_character c" if "az09 c \<or> c = 39" for c
    using that by (auto simp: az09_def illegal_character_def)
  ultimately show ?thesis
    unfolding list_ex_iff by blast
qed

lemma big_table_facts:
  "length big_table = 1048577" "\<not> sheet_ok big_table" "rows_ge big_table 250 = []"
  by (simp_all add: big_table_def sheet_ok_def EXCEL_MAX_ROWS_def rows_ge_def filter_map o_def)

section \<open>Report Emitter: the thresholded table\<close>

text \<open>
  Claim C1. For every frequency table and every integer threshold, the thresholded table
  that \<open>save_outputs\<close> writes (as the second CSV file and, when the workbook can be
  written, as its second sheet, next to the full table) is the subsequence of the full
  table made of the rows whose count is at least the threshold, in the order of the full
  table: it is a subsequence of the full table, each row occurs in it as often as in the
  full table if its count reaches the threshold and not at all otherwise, and every
  subsequence of the full table whose rows all reach the threshold is a subsequence of it.
\<close>

theorem thresholded_table:
  "written (snd (save_outputs e freq_df threshold)) (csv_all_path (OUTPUT_DIR e))
     = Some (CsvFile freq_df)
   \<and> written (snd (save_outputs e freq_df threshold)) (csv_ge_path (OUTPUT_DIR e) threshold)
       = Some (CsvFile (rows_ge freq_df threshold))
   \<and> written (snd (save_outputs e freq_df threshold)) (xlsx_path (OUTPUT_DIR e))
       = Some (if sheet_ok freq_df
               then Workbook [(''all_tokens'', freq_df),
                              (''tokens_ge_'' @ str_int threshold, rows_ge freq_df threshold)]
               else Incomplete)
   \<and> subseq (rows_ge freq_df threshold) freq_df
   \<and> (\<forall>r. count_list (rows_ge freq_df threshold) r
          = (if threshold \<le> snd r then count_list freq_df r else 0))
   \<and> (\<forall>r \<in> set (rows_ge freq_df threshold). r \<in> set freq_df \<and> threshold \<le> snd r)
   \<and> (\<forall>ys. subseq ys freq_df \<and> (\<forall>r \<in> set ys. threshold \<le> snd r)
          \<longrightarrow> subseq ys (rows_ge freq_df threshold))"
proof (intro conjI)
  show "\<forall>r. count_list (rows_ge freq_df threshold) r
      = (if threshold \<le> snd r then count_list freq_df r else 0)"
    by (simp add: rows_ge_def count_list_filter)
  show "\<forall>ys. subseq ys freq_df \<and> (\<forall>r \<in> set ys. threshold \<le> snd r)
      \<longrightarrow> subseq ys (rows_ge freq_df threshold)"
    unfolding rows_ge_def by (blast intro: filter_greatest_subseq)
qed (simp_all add: save_outputs_written_csv rows_ge_def)

theorem thresholded_table_witness:
  "rows_ge [(ascii ''password'', 3), (ascii ''reset'', 2), (ascii ''help'', 1), (ascii ''login'', 2)] 2
     = [(ascii ''password'', 3), (ascii ''reset'', 2), (ascii ''login'', 2)]
   \<and> written
        (snd (save_outputs example_env
          [(ascii ''password'', 3), (ascii ''reset'', 2), (ascii ''help'', 1), (ascii ''login'', 2)]
          2))
        ''/repo/output/token_frequencies_ge_2.csv''
       = Some (CsvFile [(ascii ''password'', 3), (ascii ''reset'', 2), (ascii ''login'', 2)])
   \<and> subseq [(ascii ''password'', 3), (ascii ''reset'', 2), (ascii ''login'', 2)]
        [(ascii ''password'', 3), (ascii ''reset'', 2), (ascii ''help'', 1), (ascii ''login'', 2)]"
proof -
  let ?df = "[(ascii ''password'', 3), (ascii ''reset'', 2), (ascii ''help'', 1),
              (ascii ''login'', 2 :: int)]"
  note inst = thresholded_table [of example_env ?df 2]
  have eval: "rows_ge ?df 2 = [(ascii ''password'', 3), (ascii ''reset'', 2), (ascii ''login'', 2)]"
    by (simp add: rows_ge_def)
  have path: "csv_ge_path (OUTPUT_DIR example_env) 2 = ''/repo/output/token_frequencies_ge_2.csv''"
    by (simp add: csv_ge_path_def OUTPUT_DIR_def path_join_def example_env_def str_int_def
        digit_char_def)
  show ?thesis
    using inst unfolding eval path by simp
qed

section \<open>Report Emitter: chart or note\<close>

text \<open>
  Claim C7, as stated: for every frequency table and threshold the chart covers at most
  the first 50 rows of the thresholded table, and when the thresholded table is empty the
  Report Emitter emits the note instead of a chart, without treating this as an error. It
  fails on a table that does not fit a sheet of the workbook, which \<open>save_outputs\<close> writes
  before the chart or the note: for the table of the 1,048,577 tokens from 1000000 to
  2048576, each counted once, and the threshold 250, the thresholded table is empty, the
  run ends with the exception of the workbook writer, and neither the note nor a chart is
  written.
\<close>

theorem save_outputs_big_table_no_note:
  "length big_table = 1048577
   \<and> rows_ge big_table 250 = []
   \<and> save_outputs example_env big_table 250
       = (Inl WorkbookError,
          [Mkdir ''/repo/output'',
           WriteFile ''/repo/output/token_frequencies_all.csv'' (CsvFile big_table),
           WriteFile ''/repo/output/token_frequencies_ge_250.csv'' (CsvFile []),
           WriteFile ''/repo/output/text_mining_results.xlsx'' Incomplete])
   \<and> written (snd (save_outputs example_env big_table 250)) ''/repo/output/chart_note.txt''
       = None
   \<and> charts (snd (save_outputs example_env big_table 250)) = []"
proof -
  have s250: "str_int 250 = ''250''"
    by (simp add: str_int_def digit_char_def)
  have out: "OUTPUT_DIR example_env = ''/repo/output''"
    by (simp add: OUTPUT_DIR_def path_join_def example_env_def)
  have run: "save_outputs example_env big_table 250
      = (Inl WorkbookError,
         [Mkdir ''/repo/output'',
          WriteFile ''/repo/output/token_frequencies_all.csv'' (CsvFile big_table),
          WriteFile ''/repo/output/token_frequencies_ge_250.csv'' (CsvFile []),
          WriteFile ''/repo/output/text_mining_results.xlsx'' Incomplete])"
    unfolding save_outputs_fail [OF big_table_facts(2)] big_table_facts(3) out
    by (simp add: csv_all_path_def csv_ge_path_def xlsx_path_def path_join_def s250)
  have no_note: "written (snd (save_outputs example_env big_table 250))
      ''/repo/output/chart_note.txt'' = None"
    unfolding run by simp
  have no_chart: "charts (snd (save_outputs example_env big_table 250)) = []"
    unfolding run by simp
  show ?thesis
    using big_table_facts(1) big_table_facts(3) run no_note no_chart by blast
qed

text \<open>
  Claim C7, amended: for every frequency table and threshold, \<open>save_outputs\<close> draws at
  most one chart, and a chart it draws plots the first 50 rows of the thresholded table
  (all of them when there are at most 50), so never more than 50 bars. When the workbook
  can be written (the table has fewer than 1,048,576 rows and no word with a control
  character that the workbook library refuses) the run ends without an exception and the
  run log is its last write; it then draws the chart if the thresholded table has a row,
  and if the thresholded table is empty it draws no chart and writes the text file
  \<open>chart_note.txt\<close> instead. When the workbook cannot be written the run ends with the
  exception of the workbook writer, after the two CSV files and before the summary, the
  chart or note and the run log. \<open>main\<close> runs \<open>save_outputs\<close> with the threshold 250 on
  the table of the filtered tokens and ends as it ends.
\<close>

theorem chart_or_note:
  "charts (snd (save_outputs e freq_df threshold))
     = (if sheet_ok freq_df \<and> rows_ge freq_df threshold \<noteq> []
        then [take 50 (rows_ge freq_df threshold)] else [])
   \<and> (\<forall>rows \<in> set (charts (snd (save_outputs e freq_df threshold))).
         length rows \<le> 50 \<and> prefix rows (rows_ge freq_df threshold)
         \<and> (length (rows_ge freq_df threshold) \<le> 50 \<longrightarrow> rows = rows_ge freq_df threshold))
   \<and> (sheet_ok freq_df \<longrightarrow>
         fst (save_outputs e freq_df threshold) = Inr ()
         \<and> last (written_paths (snd (save_outputs e freq_df threshold)))
             = log_path (OUTPUT_DIR e))
   \<and> (sheet_ok freq_df \<and> rows_ge freq_df threshold \<noteq> [] \<longrightarrow>
         written (snd (save_outputs e freq_df threshold)) (png_path (OUTPUT_DIR e) threshold)
           = Some (BarChart (''Top tokens (frequency >= '' @ str_int threshold @ '')'')
                     (take 50 (rows_ge freq_df threshold)))
         \<and> note_path (OUTPUT_DIR e)
             \<notin> set (written_paths (snd (save_outputs e freq_df threshold))))
   \<and> (sheet_ok freq_df \<and> rows_ge freq_df threshold = [] \<longrightarrow>
         written (snd (save_outputs e freq_df threshold)) (note_path (OUTPUT_DIR e))
           = Some (TextFile (''No tokens met the threshold of '' @ str_int threshold
                             @ '', so no chart was generated.'' @ [CHR 0x0A]))
         \<and> png_path (OUTPUT_DIR e) threshold
             \<notin> set (written_paths (snd (save_outputs e freq_df threshold))))
   \<and> (\<not> sheet_ok freq_df \<longrightarrow>
         fst (save_outputs e freq_df threshold) = Inl WorkbookError
         \<and> written_paths (snd (save_outputs e freq_df threshold))
             = [csv_all_path (OUTPUT_DIR e), csv_ge_path (OUTPUT_DIR e) threshold,
                xlsx_path (OUTPUT_DIR e)]
         \<and> written (snd (save_outputs e freq_df threshold)) (xlsx_path (OUTPUT_DIR e))
             = Some Incomplete)
   \<and> (\<forall>text sw.
         files f (path_join (DATA_DIR e) DEFAULT_INPUT_FILE) = Some text
         \<and> build_stopword_set (nltk_english e) = Inr sw
         \<longrightarrow> main e f
               = (fst (save_outputs e
                         (count_tokens (sort_values e)
                            (filter_tokens
                               (tokenize (str_lower e) (normalize_text (nfkc e) text)) sw 4))
                         250),
                  Mkdir (OUTPUT_DIR e)
                  # snd (save_outputs e
                           (count_tokens (sort_values e)
                              (filter_tokens
                                 (tokenize (str_lower e) (normalize_text (nfkc e) text)) sw 4))
                           250)))"
proof (intro conjI)
  show "charts (snd (save_outputs e freq_df threshold))
      = (if sheet_ok freq_df \<and> rows_ge freq_df threshold \<noteq> []
         then [take 50 (rows_ge freq_df threshold)] else [])"
    by (rule save_outputs_charts)
  show "\<forall>rows \<in> set (charts (snd (save_outputs e freq_df threshold))).
      length rows \<le> 50 \<and> prefix rows (rows_ge freq_df threshold)
      \<and> (length (rows_ge freq_df threshold) \<le> 50 \<longrightarrow> rows = rows_ge freq_df threshold)"
    by (simp add: save_outputs_charts take_is_prefix)
  show "sheet_ok freq_df \<longrightarrow>
      fst (save_outputs e freq_df threshold) = Inr ()
      \<and> last (written_paths (snd (save_outputs e freq_df threshold)))
          = log_path (OUTPUT_DIR e)"
    by (simp add: save_outputs_result save_outputs_written_paths)
  show "sheet_ok freq_df \<and> rows_ge freq_df threshold \<noteq> [] \<longrightarrow>
      written (snd (save_outputs e freq_df threshold)) (png_path (OUTPUT_DIR e) threshold)
        = Some (BarChart (''Top tokens (frequency >= '' @ str_int threshold @ '')'')
                  (take 50 (rows_ge freq_df threshold)))
      \<and> note_path (OUTPUT_DIR e)
          \<notin> set (written_paths (snd (save_outputs e freq_df threshold)))"
    by (simp add: save_outputs_written_chart save_outputs_written_paths
        output_paths_distinct output_paths_distinct [THEN not_sym])
  show "sheet_ok freq_df \<and> rows_ge freq_df threshold = [] \<longrightarrow>
      written (snd (save_outputs e freq_df threshold)) (note_path (OUTPUT_DIR e))
        = Some (TextFile (''No tokens met the threshold of '' @ str_int threshold
                          @ '', so no chart was generated.'' @ [CHR 0x0A]))
      \<and> png_path (OUTPUT_DIR e) threshold
          \<notin> set (written_paths (snd (save_outputs e freq_df threshold)))"
    by (simp add: save_outputs_written_chart save_outputs_written_paths
        output_paths_distinct output_paths_distinct [THEN not_sym])
  show "\<not> sheet_ok freq_df \<longrightarrow>
      fst (save_outputs e freq_df threshold) = Inl WorkbookError
      \<and> written_paths (snd (save_outputs e freq_df threshold))
          = [csv_all_path (OUTPUT_DIR e), csv_ge_path (OUTPUT_DIR e) threshold,
             xlsx_path (OUTPUT_DIR e)]
      \<and> written (snd (save_outputs e freq_df threshold)) (xlsx_path (OUTPUT_DIR e))
          = Some Incomplete"
    by (simp add: save_outputs_result save_outputs_written_paths save_outputs_written_csv)
  show "\<forall>text sw.
      files f (path_join (DATA_DIR e) DEFAULT_INPUT_FILE) = Some text
      \<and> build_stopword_set (nltk_english e) = Inr sw
      \<longrightarrow> main e f
            = (fst (save_outputs e
                      (count_tokens (sort_values e)
                         (filter_tokens
                            (tokenize (str_lower e) (normalize_text (nfkc e) text)) sw 4))
                      250),
               Mkdir (OUTPUT_DIR e)
               # snd (save_outputs e
                        (count_tokens (sort_values e)
                           (filter_tokens
                              (tokenize (str_lower e) (normalize_text (nfkc e) text)) sw 4))
                        250))"
    by (auto simp: main_def Let_def path_exists_def read_text_def case_prod_beta)
qed

theorem chart_or_note_witness:
  "sheet_ok [(ascii ''password'', 3), (ascii ''reset'', 2)]
   \<and> rows_ge [(ascii ''password'', 3), (ascii ''reset'', 2)] 250 = []
   \<and> fst (save_outputs example_env [(ascii ''password'', 3), (ascii ''reset'', 2)] 250) = Inr ()
   \<and> charts (snd (save_outputs example_env [(ascii ''password'', 3), (ascii ''reset'', 2)] 250))
       = []
   \<and> written (snd (save_outputs example_env [(ascii ''password'', 3), (ascii ''reset'', 2)] 250))
        ''/repo/output/chart_note.txt''
       = Some (TextFile (''No tokens met the threshold of 250, so no chart was generated.''
                         @ [CHR 0x0A]))
   \<and> rows_ge [(ascii ''password'', 3), (ascii ''reset'', 2)] 2 \<noteq> []
   \<and> charts (snd (save_outputs example_env [(ascii ''password'', 3), (ascii ''reset'', 2)] 2))
       = [[(ascii ''password'', 3), (ascii ''reset'', 2)]]
   \<and> sheet_ok (replicate 60 (ascii ''password'', 3))
   \<and> length (rows_ge (replicate 60 (ascii ''password'', 3)) 2) = 60
   \<and> charts (snd (save_outputs example_env (replicate 60 (ascii ''password'', 3)) 2))
       = [replicate 50 (ascii ''password'', 3)]
   \<and> \<not> sheet_ok [([7], 1)]
   \<and> fst (save_outputs example_env [([7], 1)] 1) = Inl WorkbookError
   \<and> charts (snd (save_outputs example_env [([7], 1)] 1)) = []
   \<and> files example_fs (path_join (DATA_DIR example_env) DEFAULT_INPUT_FILE) = Some example_corpus
   \<and> fst (main example_env example_fs) = Inr ()
   \<and> written (snd (main example_env example_fs)) ''/repo/output/chart_note.txt''
       = Some (TextFile (''No tokens met the threshold of 250, so no chart was generated.''
                         @ [CHR 0x0A]))"
proof -
  let ?df = "[(ascii ''password'', 3), (ascii ''reset'', 2 :: int)]"
  let ?big = "replicate 60 (ascii ''password'', 3 :: int)"
  let ?bad = "[([7 :: nat], 1 :: int)]"
  let ?sw = "set (map ascii [''the'', ''and'', ''my'', ''is'', ''to'']) \<union> set extra_stopwords"
  let ?T = "count_tokens (sort_values example_env)
      (filter_tokens
         (tokenize (str_lower example_env) (normalize_text (nfkc example_env) example_corpus))
         ?sw 4)"
  have e250: "rows_ge ?df 250 = []" and e2: "rows_ge ?df 2 = ?df"
    and ebig: "rows_ge ?big 2 = ?big"
    by (simp_all add: rows_ge_def)
  have ok: "sheet_ok ?df" and okbig: "sheet_ok ?big" and bad: "\<not> sheet_ok ?bad"
    by (simp_all add: sheet_ok_def EXCEL_MAX_ROWS_def illegal_character_def ascii_def
        list_all_iff list_ex_iff)
  have npath: "note_path (OUTPUT_DIR example_env) = ''/repo/output/chart_note.txt''"
    by (simp add: note_path_def OUTPUT_DIR_def path_join_def example_env_def)
  have s250: "str_int 250 = ''250''"
    by (simp add: str_int_def digit_char_def)
  have input: "files example_fs (path_join (DATA_DIR example_env) DEFAULT_INPUT_FILE)
      = Some example_corpus"
    by (simp add: example_fs_def DATA_DIR_def path_join_def example_env_def
        DEFAULT_INPUT_FILE_def)
  have words: "build_stopword_set (nltk_english example_env) = Inr ?sw"
    by (simp add: build_stopword_set_def example_env_def)
  have table: "?T = [(ascii ''password'', 3), (ascii ''reset'', 2), (ascii ''can't'', 1),
      (ascii ''help'', 1)]"
    unfolding example_env_def env.simps by code_simp
  have okT: "sheet_ok ?T" and eT: "rows_ge ?T 250 = []"
    unfolding table
    by (simp_all add: sheet_ok_def EXCEL_MAX_ROWS_def illegal_character_def ascii_def
        list_all_iff list_ex_iff rows_ge_def)
  have r250: "fst (save_outputs example_env ?df 250) = Inr ()"
    and c250: "charts (snd (save_outputs example_env ?df 250)) = []"
    and n250: "written (snd (save_outputs example_env ?df 250)) ''/repo/output/chart_note.txt''
      = Some (TextFile (''No tokens met the threshold of 250, so no chart was generated.''
                        @ [CHR 0x0A]))"
    using chart_or_note [of example_env ?df 250 example_fs] e250 ok npath s250 by simp_all
  have c2: "charts (snd (save_outputs example_env ?df 2)) = [?df]"
    using chart_or_note [of example_env ?df 2 example_fs] e2 ok by simp
  have cbig: "charts (snd (save_outputs example_env ?big 2))
      = [replicate 50 (ascii ''password'', 3)]"
    using chart_or_note [of example_env ?big 2 example_fs] ebig okbig by simp
  have rbad: "fst (save_outputs example_env ?bad 1) = Inl WorkbookError"
    and cbad: "charts (snd (save_outputs example_env ?bad 1)) = []"
    using chart_or_note [of example_env ?bad 1 example_fs] bad by simp_all
  have run: "main example_env example_fs
      = (fst (save_outputs example_env ?T 250),
         Mkdir (OUTPUT_DIR example_env) # snd (save_outputs example_env ?T 250))"
    using chart_or_note [of example_env ?df 2 example_fs] input words by blast
  have rT: "fst (save_outputs example_env ?T 250) = Inr ()"
    and nT: "written (snd (save_outputs example_env ?T 250)) ''/repo/output/chart_note.txt''
      = Some (TextFile (''No tokens met the threshold of 250, so no chart was generated.''
                        @ [CHR 0x0A]))"
    using chart_or_note [of example_env ?T 250 example_fs] okT eT npath s250 by simp_all
  have rmain: "fst (main example_env example_fs) = Inr ()"
    and nmain: "written (snd (main example_env example_fs)) ''/repo/output/chart_note.txt''
      = Some (TextFile (''No tokens met the threshold of 250, so no chart was generated.''
                        @ [CHR 0x0A]))"
    unfolding run using rT nT by simp_all
  show ?thesis
    using ok e250 r250 c250 n250 e2 c2 okbig ebig cbig bad rbad cbad input rmain nmain
    by simp
qed

section \<open>Report Emitter: the run log\<close>

text \<open>
  The run log holds the timestamp, the project root, the input path, the number of rows
  of the table and of the thresholded table, the rendering of the first 20 rows, and the
  six paths of \<open>listed_outputs\<close>.
\<close>

lemma run_log_lines_contents:
  "''Run timestamp: '' @ now e \<in> set (run_log_lines e input_path freq_df threshold output_dir)"
  "''Project root: '' @ PROJECT_ROOT e \<in> set (run_log_lines e input_path freq_df threshold output_dir)"
  "''Input file:    '' @ input_path \<in> set (run_log_lines e input_path freq_df threshold output_dir)"
  "''Unique tokens (after filtering): '' @ str_int (int (length freq_df))
     \<in> set (run_log_lines e input_path freq_df threshold output_dir)"
  "''Tokens with total >= '' @ str_int threshold @ '': ''
       @ str_int (int (length (rows_ge freq_df threshold)))
     \<in> set (run_log_lines e input_path freq_df threshold output_dir)"
  "to_string e (take 20 freq_df) \<in> set (run_log_lines e input_path freq_df threshold output_dir)"
  "p \<in> set (listed_outputs output_dir threshold) \<Longrightarrow>
   ''- '' @ p \<in> set (run_log_lines e input_path freq_df threshold output_dir)"
  by (simp_all add: run_log_lines_def Let_def)

text \<open>
  Whenever the run reaches the run log and no row reaches the threshold, the list in the
  log names the chart file, which the run did not write, and leaves out the note, which it
  wrote.
\<close>

lemma listed_outputs_not_written:
  assumes "sheet_ok freq_df" and "rows_ge freq_df threshold = []"
  shows "png_path (OUTPUT_DIR e) threshold \<in> set (listed_outputs (OUTPUT_DIR e) threshold)"
    and "png_path (OUTPUT_DIR e) threshold
           \<notin> set (written_paths (snd (save_outputs e freq_df threshold)))"
    and "note_path (OUTPUT_DIR e) \<in> set (written_paths (snd (save_outputs e freq_df threshold)))"
    and "note_path (OUTPUT_DIR e) \<notin> set (listed_outputs (OUTPUT_DIR e) threshold)"
  using assms
  by (simp_all add: listed_outputs_def save_outputs_written_paths
      output_paths_distinct output_paths_distinct [THEN not_sym])

text \<open>
  Claim C8 says that the run log lists exactly the artifacts the run wrote, the fallback
  note included. The program at the empty table with threshold 250: the run writes
  \<open>chart_note.txt\<close> and no chart, while the log, under ``Generated outputs:'', lists
  \<open>top_tokens_ge_250.png\<close> and does not list \<open>chart_note.txt\<close>.
\<close>

theorem run_log_lists_unwritten_chart:
  "written_paths (snd (save_outputs example_env [] 250))
     = [''/repo/output/token_frequencies_all.csv'',
        ''/repo/output/token_frequencies_ge_250.csv'',
        ''/repo/output/text_mining_results.xlsx'',
        ''/repo/output/summary_top20.txt'',
        ''/repo/output/chart_note.txt'',
        ''/repo/output/run_log.txt'']
   \<and> drop 12 (run_log_lines example_env ''/repo/data/customer_support_text_corpus.txt'' [] 250
        ''/repo/output'')
       = [''Generated outputs:'',
          ''- /repo/output/token_frequencies_all.csv'',
          ''- /repo/output/token_frequencies_ge_250.csv'',
          ''- /repo/output/text_mining_results.xlsx'',
          ''- /repo/output/summary_top20.txt'',
          ''- /repo/output/top_tokens_ge_250.png'',
          ''- /repo/output/run_log.txt'']
   \<and> written (snd (save_outputs example_env [] 250)) ''/repo/output/run_log.txt''
       = Some (TextFile (join_lines
           (run_log_lines example_env ''/repo/data/customer_support_text_corpus.txt'' [] 250
              ''/repo/output'') @ [CHR 0x0A]))"
proof -
  have s250: "str_int 250 = ''250''"
    by (simp add: str_int_def digit_char_def)
  have ok: "sheet_ok []"
    by (simp add: sheet_ok_def EXCEL_MAX_ROWS_def)
  have out: "OUTPUT_DIR example_env = ''/repo/output''"
    and inp: "path_join (DATA_DIR example_env) DEFAULT_INPUT_FILE
      = ''/repo/data/customer_support_text_corpus.txt''"
    by (simp_all add: OUTPUT_DIR_def DATA_DIR_def DEFAULT_INPUT_FILE_def path_join_def
        example_env_def)
  have paths: "written_paths (snd (save_outputs example_env [] 250))
      = [''/repo/output/token_frequencies_all.csv'',
         ''/repo/output/token_frequencies_ge_250.csv'',
         ''/repo/output/text_mining_results.xlsx'',
         ''/repo/output/summary_top20.txt'',
         ''/repo/output/chart_note.txt'',
         ''/repo/output/run_log.txt'']"
    by (simp add: save_outputs_written_paths ok out s250 rows_ge_def csv_all_path_def
        csv_ge_path_def xlsx_path_def txt_path_def note_path_def log_path_def path_join_def)
  have listed: "drop 12 (run_log_lines example_env
        ''/repo/data/customer_support_text_corpus.txt'' [] 250 ''/repo/output'')
      = [''Generated outputs:'',
         ''- /repo/output/token_frequencies_all.csv'',
         ''- /repo/output/token_frequencies_ge_250.csv'',
         ''- /repo/output/text_mining_results.xlsx'',
         ''- /repo/output/summary_top20.txt'',
         ''- /repo/output/top_tokens_ge_250.png'',
         ''- /repo/output/run_log.txt'']"
    by (simp add: run_log_lines_def Let_def listed_outputs_def s250 csv_all_path_def
        csv_ge_path_def xlsx_path_def txt_path_def png_path_def log_path_def path_join_def)
  have log: "written (snd (save_outputs example_env [] 250)) ''/repo/output/run_log.txt''
      = Some (TextFile (join_lines
          (run_log_lines example_env ''/repo/data/customer_support_text_corpus.txt'' [] 250
             ''/repo/output'') @ [CHR 0x0A]))"
    unfolding save_outputs_ok [OF ok] out inp by (simp add: log_path_def path_join_def)
  show ?thesis
    using paths listed log by blast
qed

section \<open>Entry point: the missing input file\<close>

text \<open>
  Claim C9. If the input file is absent at the expected path, \<open>main\<close> raises
  \<open>FileNotFoundError\<close> after creating the output directory and before anything else: the
  only effect of the run is that \<open>mkdir\<close>, no artifact is written, and the message of the
  exception contains the expected input path.
\<close>

theorem main_missing_input:
  assumes "\<not> path_exists f (path_join (DATA_DIR e) DEFAULT_INPUT_FILE)"
  shows "\<exists>msg. main e f = (Inl (FileNotFoundError msg), [Mkdir (OUTPUT_DIR e)])
           \<and> sublist (path_join (DATA_DIR e) DEFAULT_INPUT_FILE) msg
           \<and> written_paths (snd (main e f)) = []"
proof -
  let ?p = "path_join (DATA_DIR e) DEFAULT_INPUT_FILE"
  have run: "main e f = (Inl (FileNotFoundError (missing_input_message e ?p)), [Mkdir (OUTPUT_DIR e)])"
    using assms by (simp add: main_def Let_def)
  have "missing_input_message e ?p
      = ''Input file not found: '' @ ?p
        @ ([CHR 0x0A] @ ''Make sure your corpus is located at: '' @ ?p @ [CHR 0x0A]
           @ ''Current project root is: '' @ PROJECT_ROOT e)"
    by (simp add: missing_input_message_def)
  then have "sublist ?p (missing_input_message e ?p)"
    unfolding sublist_def by blast
  with run show ?thesis by simp
qed

theorem main_missing_input_witness:
  "\<not> path_exists empty_fs (path_join (DATA_DIR example_env) DEFAULT_INPUT_FILE)
   \<and> path_join (DATA_DIR example_env) DEFAULT_INPUT_FILE
       = ''/repo/data/customer_support_text_corpus.txt''
   \<and> (\<exists>msg. main example_env empty_fs
               = (Inl (FileNotFoundError msg), [Mkdir ''/repo/output''])
             \<and> sublist ''/repo/data/customer_support_text_corpus.txt'' msg)"
proof -
  have absent: "\<not> path_exists empty_fs (path_join (DATA_DIR example_env) DEFAULT_INPUT_FILE)"
    by (simp add: path_exists_def empty_fs_def)
  have inp: "path_join (DATA_DIR example_env) DEFAULT_INPUT_FILE
      = ''/repo/data/customer_support_text_corpus.txt''"
    and out: "OUTPUT_DIR example_env = ''/repo/output''"
    by (simp_all add: OUTPUT_DIR_def DATA_DIR_def DEFAULT_INPUT_FILE_def path_join_def
        example_env_def)
  show ?thesis
    using main_missing_input [OF absent] absent unfolding inp out by blast
qed

section \<open>Normalizer: the characters \<open>normalize_text\<close> replaces\<close>

text \<open>
  After \<open>normalize_text\<close> the text holds no right single quotation mark (U+2019) and no
  left or right double quotation mark (U+201C, U+201D), whatever the normalization form
  produced; every other character the normalization produced is still there.
\<close>

lemma normalize_text_replaced:
  "0x2019 \<notin> set (normalize_text nf text)"
  "0x201C \<notin> set (normalize_text nf text)"
  "0x201D \<notin> set (normalize_text nf text)"
  by (auto simp: normalize_text_def replace_char_def split: if_splits)

lemma normalize_text_kept:
  "c \<notin> {0x2019, 0x201C, 0x201D} \<Longrightarrow> c \<in> set (nf text) \<Longrightarrow> c \<in> set (normalize_text nf text)"
  by (auto simp: normalize_text_def replace_char_def image_iff)

text \<open>
  Claim C6 says that no typographic quotation mark or apostrophe remains in the output of
  the Normalizer. The program leaves the left single quotation mark (U+2018) where it is:
  the replacement step maps the other three quotation marks to their ASCII forms and has
  no case for this one. (The compatibility normalization has no mapping for any of the
  four characters, so the identity stands for it on this input.)
\<close>

theorem normalize_text_keeps_left_single_quote:
  "(0x2018 \<in> set (normalize_text nf text) \<longleftrightarrow> 0x2018 \<in> set (nf text))
   \<and> normalize_text (\<lambda>t. t) [0x2018, 0x2019, 0x201C, 0x201D] = [0x2018, 0x27, 0x22, 0x22]"
  by (auto simp: normalize_text_def replace_char_def split: if_splits)

end
